theory Spec2Isabelle
  imports Complex_Main
begin

section \<open>Python values used by the image core\<close>

text \<open>
  The core of the compressor is four Python modules: \<^verbatim>\<open>core/compressor.py\<close>,
  \<^verbatim>\<open>core/converter.py\<close>, \<^verbatim>\<open>core/conflict_checker.py\<close> and \<^verbatim>\<open>utils/metadata.py\<close>.
  They are straight-line code over three outside parties: the Python string and
  \<^verbatim>\<open>os.path\<close> functions, the imaging library (Pillow) and the file system. The string
  and path functions are deterministic and are written out below as they are in the
  standard library (\<^verbatim>\<open>posixpath\<close>, \<^verbatim>\<open>genericpath\<close>). The imaging library and the file
  system are taken as parameters: a record of operations (\<open>runtime\<close>), each returning
  either a raised exception or its value.
\<close>

subsection \<open>Exceptions\<close>

text \<open>
  Every handler in the core is \<^verbatim>\<open>except Exception as e\<close> and reads only \<^verbatim>\<open>str(e)\<close>,
  so an exception is its class name and its message.
\<close>

datatype py_exception = PyException (exc_class: string) (exc_str: string)

definition try_then :: "py_exception + 'a \<Rightarrow> ('a \<Rightarrow> py_exception + 'b) \<Rightarrow> py_exception + 'b" where
  "try_then m f = (case m of Inl e \<Rightarrow> Inl e | Inr x \<Rightarrow> f x)"

subsection \<open>Strings\<close>

text \<open>
  \<^verbatim>\<open>str.lower()\<close> on the ASCII letters. The core compares lowered strings only with
  the ASCII words \<^verbatim>\<open>webp\<close>, \<^verbatim>\<open>avif\<close> and \<^verbatim>\<open>cannot write mode\<close>; characters outside
  ASCII are bytes above 127 here and stay as they are.
\<close>

definition ascii_upper_letters :: string where
  "ascii_upper_letters = ''ABCDEFGHIJKLMNOPQRSTUVWXYZ''"

definition ascii_lower_letters :: string where
  "ascii_lower_letters = ''abcdefghijklmnopqrstuvwxyz''"

definition lower_char :: "char \<Rightarrow> char" where
  "lower_char c = (case map_of (zip ascii_upper_letters ascii_lower_letters) c of
                     Some d \<Rightarrow> d | None \<Rightarrow> c)"

definition lower :: "string \<Rightarrow> string" where
  "lower s = map lower_char s"

definition upper_char :: "char \<Rightarrow> char" where
  "upper_char c = (case map_of (zip ascii_lower_letters ascii_upper_letters) c of
                     Some d \<Rightarrow> d | None \<Rightarrow> c)"

definition upper :: "string \<Rightarrow> string" where
  "upper s = map upper_char s"

text \<open>The substring test \<^verbatim>\<open>needle in haystack\<close>.\<close>

fun py_in :: "string \<Rightarrow> string \<Rightarrow> bool" where
  "py_in needle [] = (needle = [])"
| "py_in needle (c # cs) = (take (length needle) (c # cs) = needle \<or> py_in needle cs)"

subsection \<open>Paths (\<^verbatim>\<open>posixpath\<close>)\<close>

text \<open>\<^verbatim>\<open>p.rfind(c)\<close>: the index of the last occurrence of \<open>c\<close>, or \<open>-1\<close>.\<close>

definition rfind :: "string \<Rightarrow> char \<Rightarrow> int" where
  "rfind s c = int (length (dropWhile (\<lambda>x. x \<noteq> c) (rev s))) - 1"

text \<open>
  The loop of \<^verbatim>\<open>genericpath._splitext\<close> that skips the leading dots of the last
  component:
  \<^verbatim>\<open>
      filenameIndex = sepIndex + 1
      while filenameIndex < dotIndex:
          if p[filenameIndex:filenameIndex+1] != extsep:
              return p[:dotIndex], p[dotIndex:]
          filenameIndex += 1
  \<close>
  \<open>leading_dots_only\<close> is true when the loop runs out without returning.
\<close>

function leading_dots_only :: "string \<Rightarrow> nat \<Rightarrow> nat \<Rightarrow> bool" where
  "leading_dots_only p filenameIndex dotIndex =
     (if filenameIndex < dotIndex
      then (if take 1 (drop filenameIndex p) \<noteq> ''.'' then False
            else leading_dots_only p (filenameIndex + 1) dotIndex)
      else True)"
  by pat_completeness auto
termination
  by (relation "measure (\<lambda>(p, i, d). d - i)") auto

declare leading_dots_only.simps [simp del]

definition splitext :: "string \<Rightarrow> string \<times> string" where
  "splitext p =
     (let sepIndex = rfind p CHR ''/'';
          dotIndex = rfind p CHR ''.''
      in if dotIndex > sepIndex \<and> \<not> leading_dots_only p (nat (sepIndex + 1)) (nat dotIndex)
         then (take (nat dotIndex) p, drop (nat dotIndex) p)
         else (p, []))"

definition basename :: "string \<Rightarrow> string" where
  "basename p = drop (nat (rfind p CHR ''/'' + 1)) p"

text \<open>\<^verbatim>\<open>os.path.join(a, b)\<close> with one component \<open>b\<close>.\<close>

definition join :: "string \<Rightarrow> string \<Rightarrow> string" where
  "join a b =
     (if take 1 b = ''/'' then b
      else if a = [] \<or> drop (length a - 1) a = ''/'' then a @ b
      else a @ ''/'' @ b)"

text \<open>
  \<^verbatim>\<open>os.path.dirname(p)\<close>: the part up to the last separator, without its trailing
  separators unless it consists of separators only.
\<close>

definition dirname :: "string \<Rightarrow> string" where
  "dirname p =
     (let head = take (nat (rfind p CHR ''/'' + 1)) p
      in if head \<noteq> [] \<and> \<not> list_all (\<lambda>c. c = CHR ''/'') head
         then rev (dropWhile (\<lambda>c. c = CHR ''/'') (rev head))
         else head)"

text \<open>
  What \<open>join a b\<close> puts before a component \<open>b\<close> that does not start with the
  separator: \<open>a\<close>, with a separator added unless \<open>a\<close> is empty or ends in one.
\<close>

definition directory_prefix :: "string \<Rightarrow> string" where
  "directory_prefix a = (if a = [] \<or> drop (length a - 1) a = ''/'' then a else a @ ''/'')"

subsection \<open>Numbers\<close>

text \<open>
  A quality value reaches \<^verbatim>\<open>validate_quality\<close> as a Python number: an \<^verbatim>\<open>int\<close> or a
  \<^verbatim>\<open>float\<close>. A finite float is a rational number; the three other floats are
  \<^verbatim>\<open>inf\<close>, \<^verbatim>\<open>-inf\<close> and \<^verbatim>\<open>nan\<close>. \<^verbatim>\<open>int(x)\<close> truncates a finite float toward zero and
  raises on the other three.
\<close>

datatype py_number = PyInt int | PyFloat rat | PyInf | PyNegInf | PyNaN

definition py_int :: "py_number \<Rightarrow> py_exception + int" where
  "py_int x =
     (case x of
        PyInt n \<Rightarrow> Inr n
      | PyFloat q \<Rightarrow> Inr (if 0 \<le> q then \<lfloor>q\<rfloor> else \<lceil>q\<rceil>)
      | PyInf \<Rightarrow> Inl (PyException ''OverflowError'' ''cannot convert float infinity to integer'')
      | PyNegInf \<Rightarrow> Inl (PyException ''OverflowError'' ''cannot convert float infinity to integer'')
      | PyNaN \<Rightarrow> Inl (PyException ''ValueError'' ''cannot convert float NaN to integer''))"

subsection \<open>Floats\<close>

text \<open>
  A Python \<^verbatim>\<open>float\<close> is an IEEE binary64 number: a finite one is a rational number with
  a significand of 53 bits. The true division of two \<^verbatim>\<open>int\<close>s and the product of two
  floats are the exact results rounded to the nearest such number, ties to the even
  significand. \<open>binary_exponent x\<close> is the \<open>e\<close> with \<open>2\<^sup>e \<le> x < 2\<^sup>e\<^sup>+\<^sup>1\<close>, and the floats
  between these two powers are the multiples of \<open>2\<^sup>e\<^sup>-\<^sup>5\<^sup>2\<close>. The exponent is left
  unbounded here: binary64 has exponents from -1022 to 1023, a range that quotients and
  percentages of file sizes (below \<open>2\<^sup>6\<^sup>3\<close> on every file system) never leave.
\<close>

function binary_exponent :: "rat \<Rightarrow> int" where
  "binary_exponent x =
     (if x \<le> 0 then 0
      else if 2 \<le> x then binary_exponent (x / 2) + 1
      else if x < 1 then binary_exponent (x * 2) - 1
      else 0)"
  by pat_completeness auto
termination
proof (relation "measure (\<lambda>x. if 2 \<le> x then nat \<lfloor>x\<rfloor>
                            else if 0 < x \<and> x < 1 then nat \<lceil>1 / x\<rceil> else 0)")
  show "wf (measure (\<lambda>x::rat. if 2 \<le> x then nat \<lfloor>x\<rfloor>
                             else if 0 < x \<and> x < 1 then nat \<lceil>1 / x\<rceil> else 0))"
    by simp
next
  fix x :: rat
  assume "\<not> x \<le> 0" and h: "2 \<le> x"
  have "\<lfloor>x / 2\<rfloor> < \<lfloor>x\<rfloor>"
  proof -
    have "x / 2 \<le> x - 1" using h by simp
    then have "\<lfloor>x / 2\<rfloor> \<le> \<lfloor>x - 1\<rfloor>" by (rule floor_mono)
    then show ?thesis by simp
  qed
  moreover have "2 \<le> \<lfloor>x\<rfloor>" using h by (simp add: le_floor_iff)
  ultimately show "(x / 2, x) \<in> measure (\<lambda>x. if 2 \<le> x then nat \<lfloor>x\<rfloor>
                            else if 0 < x \<and> x < 1 then nat \<lceil>1 / x\<rceil> else 0)"
    using h by auto
next
  fix x :: rat
  assume p: "\<not> x \<le> 0" and "\<not> 2 \<le> x" and h: "x < 1"
  have pos: "0 < x" using p by simp
  have y: "1 < 1 / x" using pos h by simp
  have c2: "2 \<le> \<lceil>1 / x\<rceil>"
    using y by (simp add: le_ceiling_iff)
  have "\<lceil>1 / (x * 2)\<rceil> < \<lceil>1 / x\<rceil>" if "x * 2 < 1"
  proof -
    define y where "y = 1 / x"
    have "2 < y" using that pos by (simp add: y_def field_simps)
    moreover have "y \<le> of_int \<lceil>y\<rceil>" by (rule le_of_int_ceiling)
    ultimately have "y / 2 \<le> of_int \<lceil>y\<rceil> - 1" by linarith
    then have "y / 2 \<le> of_int (\<lceil>y\<rceil> - 1)" by simp
    then have "\<lceil>y / 2\<rceil> \<le> \<lceil>y\<rceil> - 1"
      by (rule ceiling_le)
    then have "\<lceil>y / 2\<rceil> < \<lceil>y\<rceil>" by linarith
    moreover have "1 / (x * 2) = y / 2" by (simp add: y_def)
    ultimately show ?thesis by (simp only: y_def)
  qed
  then show "(x * 2, x) \<in> measure (\<lambda>x. if 2 \<le> x then nat \<lfloor>x\<rfloor>
                            else if 0 < x \<and> x < 1 then nat \<lceil>1 / x\<rceil> else 0)"
    using pos h c2 by auto
qed

declare binary_exponent.simps [simp del]

text \<open>The nearest integer, a tie going to the even one.\<close>

definition round_half_even :: "rat \<Rightarrow> int" where
  "round_half_even y =
     (let k = \<lfloor>y\<rfloor>; frac = y - of_int k
      in if frac < 1 / 2 then k
         else if 1 / 2 < frac then k + 1
         else if even k then k else k + 1)"

definition round_to_double :: "rat \<Rightarrow> rat" where
  "round_to_double x =
     (if x = 0 then 0
      else let ulp = 2 powi (binary_exponent \<bar>x\<bar> - 52)
           in of_int (round_half_even (x / ulp)) * ulp)"

text \<open>\<^verbatim>\<open>a / b\<close> on two \<^verbatim>\<open>int\<close>s, and \<^verbatim>\<open>x * y\<close> on two floats.\<close>

definition py_true_divide :: "int \<Rightarrow> int \<Rightarrow> py_exception + rat" where
  "py_true_divide a b =
     (if b = 0 then Inl (PyException ''ZeroDivisionError'' ''division by zero'')
      else Inr (round_to_double (of_int a / of_int b)))"

definition py_float_mul :: "rat \<Rightarrow> rat \<Rightarrow> rat" where
  "py_float_mul x y = round_to_double (x * y)"

section \<open>The imaging library and the file system\<close>

text \<open>
  The EXIF mapping of an image (tag number to value). Python tests it with
  \<^verbatim>\<open>if exif_data:\<close> and \<^verbatim>\<open>len(exif_data) > 0\<close>: it is true when it has an entry.
\<close>

type_synonym exif = "(nat \<times> string) list"

text \<open>The keyword arguments the core passes to \<^verbatim>\<open>img.save\<close>; \<open>None\<close> is an absent key.\<close>

record save_kwargs =
  kw_quality :: "int option"
  kw_optimize :: "bool option"
  kw_method :: "nat option"
  kw_exif :: "exif option"

text \<open>One call \<^verbatim>\<open>img.save(path, format=..., **kwargs)\<close>.\<close>

record 'img save_call =
  sc_image :: 'img
  sc_path :: string
  sc_format :: "string option"
  sc_kwargs :: save_kwargs

text \<open>
  The operations of Pillow, \<^verbatim>\<open>os.path\<close> and the float formatting of f-strings that the
  core calls. \<open>'img\<close> is an image object, \<open>'w\<close> the state of the file system. Only
  \<open>img_save\<close> changes the file system; it returns the exception it raised, if any, and
  the file system it left. \<open>img_paste R background img mask\<close> is
  \<^verbatim>\<open>background.paste(img, mask=mask)\<close> and returns the background it has changed;
  \<open>img_putdata\<close> likewise. \<open>format_fixed R d x\<close> is \<^verbatim>\<open>f"{x:.df}"\<close>.
\<close>

record ('img, 'w) runtime =
  image_open :: "'w \<Rightarrow> string \<Rightarrow> py_exception + 'img"
  getsize :: "'w \<Rightarrow> string \<Rightarrow> py_exception + nat"
  getmtime :: "'w \<Rightarrow> string \<Rightarrow> py_exception + rat"
  path_exists :: "'w \<Rightarrow> string \<Rightarrow> bool"
  img_mode :: "'img \<Rightarrow> string"
  img_size :: "'img \<Rightarrow> nat \<times> nat"
  img_format :: "'img \<Rightarrow> string option"
  img_convert :: "'img \<Rightarrow> string \<Rightarrow> py_exception + 'img"
  image_new :: "string \<Rightarrow> nat \<times> nat \<Rightarrow> nat list \<Rightarrow> py_exception + 'img"
  img_split :: "'img \<Rightarrow> py_exception + 'img list"
  img_paste :: "'img \<Rightarrow> 'img \<Rightarrow> 'img \<Rightarrow> py_exception + 'img"
  img_getexif :: "'img \<Rightarrow> py_exception + exif"
  img_getdata :: "'img \<Rightarrow> py_exception + nat list list"
  img_putdata :: "'img \<Rightarrow> nat list list \<Rightarrow> py_exception + 'img"
  img_save :: "'img save_call \<Rightarrow> 'w \<Rightarrow> py_exception option \<times> 'w"
  format_fixed :: "nat \<Rightarrow> rat \<Rightarrow> string"

text \<open>\<^verbatim>\<open>xs[i]\<close>, which raises \<^verbatim>\<open>IndexError\<close> out of range.\<close>

definition py_index :: "'a list \<Rightarrow> nat \<Rightarrow> py_exception + 'a" where
  "py_index xs i =
     (if i < length xs then Inr (xs ! i)
      else Inl (PyException ''IndexError'' ''tuple index out of range''))"

text \<open>
  The result tuple \<^verbatim>\<open>(success, message, file_size_reduction)\<close>. The reduction is a
  Python float: the rational number that the binary64 value is.
\<close>

type_synonym result = "bool \<times> string \<times> rat"

text \<open>\<^verbatim>\<open>return False, f"Error: {str(e)}", 0.0\<close>\<close>

definition error_result :: "py_exception \<Rightarrow> result" where
  "error_result e = (False, ''Error: '' @ exc_str e, 0)"

text \<open>
  \<^verbatim>\<open>((original_size - new_size) / original_size) * 100\<close>: the difference of two
  \<^verbatim>\<open>int\<close>s, their true division, which raises \<^verbatim>\<open>ZeroDivisionError\<close> when the original
  file is empty, and the product of the quotient with the float 100.
\<close>

definition size_reduction_pct :: "nat \<Rightarrow> nat \<Rightarrow> py_exception + rat" where
  "size_reduction_pct original_size new_size =
     try_then (py_true_divide (int original_size - int new_size) (int original_size))
       (\<lambda>quotient. Inr (py_float_mul quotient 100))"

text \<open>\<^verbatim>\<open>size / (1024 * 1024)\<close>\<close>

definition megabytes :: "nat \<Rightarrow> rat" where
  "megabytes n = round_to_double (of_nat n / (1024 * 1024))"

text \<open>The arrow U+2192 of the messages, in UTF-8.\<close>

definition arrow :: string where
  "arrow = [CHR 0xE2, CHR 0x86, CHR 0x92]"

section \<open>\<^verbatim>\<open>core/compressor.py\<close>\<close>

text \<open>\<^verbatim>\<open>return max(1, min(100, int(quality)))\<close>\<close>

definition validate_quality :: "py_number \<Rightarrow> py_exception + int" where
  "validate_quality quality = try_then (py_int quality) (\<lambda>n. Inr (max 1 (min 100 n)))"

text \<open>The clamp of the specification, on integers.\<close>

definition clamp :: "int \<Rightarrow> int \<Rightarrow> int \<Rightarrow> int" where
  "clamp x lo hi = (if x < lo then lo else if hi < x then hi else x)"

text \<open>
  \<^verbatim>\<open>if original_format == 'JPEG' and img.mode == 'RGBA': img = img.convert('RGB')\<close>
  (lines 38-39 and 48-49).
\<close>

definition jpeg_rgba_to_rgb ::
  "('img, 'w) runtime \<Rightarrow> string option \<Rightarrow> 'img \<Rightarrow> py_exception + 'img" where
  "jpeg_rgba_to_rgb R original_format img =
     (if original_format = Some ''JPEG'' \<and> img_mode R img = ''RGBA''
      then img_convert R img ''RGB'' else Inr img)"

definition compress_message :: "('img, 'w) runtime \<Rightarrow> nat \<Rightarrow> nat \<Rightarrow> rat \<Rightarrow> string" where
  "compress_message R original_size compressed_size size_reduction =
     ''Compressed: '' @ format_fixed R 2 (megabytes original_size) @ '' MB '' @ arrow @ '' ''
       @ format_fixed R 2 (megabytes compressed_size) @ '' MB (''
       @ format_fixed R 1 size_reduction @ ''% reduction)''"

text \<open>
  Lines 20-51 of \<open>compress_image\<close>, up to the call of \<^verbatim>\<open>img.save\<close>: the original
  size and the call that is about to be made, or the exception raised before it.
\<close>

definition compress_prepare ::
  "('img, 'w) runtime \<Rightarrow> string \<Rightarrow> string \<Rightarrow> int \<Rightarrow> bool \<Rightarrow> 'w
     \<Rightarrow> py_exception + (nat \<times> 'img save_call)" where
  "compress_prepare R input_path output_path quality remove_metadata w =
     try_then (image_open R w input_path) (\<lambda>img.
     try_then (getsize R w input_path) (\<lambda>original_size.
       let original_format = img_format R img;
           save_kwargs = \<lparr>kw_quality = Some quality, kw_optimize = Some True,
                          kw_method = None, kw_exif = None\<rparr>
       in if remove_metadata then
            try_then (jpeg_rgba_to_rgb R original_format img) (\<lambda>img.
              Inr (original_size,
                   \<lparr>sc_image = img, sc_path = output_path, sc_format = original_format,
                    sc_kwargs = save_kwargs\<rparr>))
          else
            try_then (img_getexif R img) (\<lambda>exif_data.
              let save_kwargs = (if exif_data \<noteq> [] then save_kwargs\<lparr>kw_exif := Some exif_data\<rparr>
                                 else save_kwargs)
              in try_then (jpeg_rgba_to_rgb R original_format img) (\<lambda>img.
                   Inr (original_size,
                        \<lparr>sc_image = img, sc_path = output_path, sc_format = original_format,
                         sc_kwargs = save_kwargs\<rparr>)))))"

text \<open>Lines 53-64: the sizes, the reduction and the message, after a save that returned.\<close>

definition compress_finish ::
  "('img, 'w) runtime \<Rightarrow> 'w \<Rightarrow> nat \<Rightarrow> string \<Rightarrow> py_exception + result" where
  "compress_finish R w original_size output_path =
     try_then (getsize R w output_path) (\<lambda>compressed_size.
     try_then (size_reduction_pct original_size compressed_size) (\<lambda>size_reduction.
       Inr (True, compress_message R original_size compressed_size size_reduction,
            size_reduction)))"

text \<open>
  \<open>compress_image\<close>: the result tuple, the file system it leaves, and the calls of
  \<^verbatim>\<open>img.save\<close> it made, in order (none or one). The outer \<^verbatim>\<open>try\<close> turns every
  exception into \<open>error_result\<close>; nothing is undone.
\<close>

definition compress_image ::
  "('img, 'w) runtime \<Rightarrow> string \<Rightarrow> string \<Rightarrow> int \<Rightarrow> bool \<Rightarrow> 'w
     \<Rightarrow> result \<times> 'w \<times> 'img save_call list" where
  "compress_image R input_path output_path quality remove_metadata w =
     (case compress_prepare R input_path output_path quality remove_metadata w of
        Inl e \<Rightarrow> (error_result e, w, [])
      | Inr (original_size, call) \<Rightarrow>
          (case img_save R call w of
             (Some e, w') \<Rightarrow> (error_result e, w', [call])
           | (None, w') \<Rightarrow>
               (case compress_finish R w' original_size output_path of
                  Inl e \<Rightarrow> (error_result e, w', [call])
                | Inr r \<Rightarrow> (r, w', [call]))))"

section \<open>\<^verbatim>\<open>core/converter.py\<close>\<close>

text \<open>
  Lines 27-41 of \<open>convert_image\<close>, the colour-mode normalisation:
  \<^verbatim>\<open>
        if img.mode in ('RGBA', 'LA', 'P'):
            if target_format.lower() == 'webp' and img.mode == 'RGBA':
                pass  # Keep RGBA for WebP
            else:
                if img.mode == 'RGBA':
                    background = Image.new('RGB', img.size, (255, 255, 255))
                    background.paste(img, mask=img.split()[3])
                    img = background
                else:
                    img = img.convert('RGB')
        elif img.mode != 'RGB':
            img = img.convert('RGB')
  \<close>
\<close>

definition paste_on_white :: "('img, 'w) runtime \<Rightarrow> 'img \<Rightarrow> py_exception + 'img" where
  "paste_on_white R img =
     try_then (image_new R ''RGB'' (img_size R img) [255, 255, 255]) (\<lambda>background.
     try_then (img_split R img) (\<lambda>bands.
     try_then (py_index bands 3) (\<lambda>mask.
       img_paste R background img mask)))"

definition normalize_mode ::
  "('img, 'w) runtime \<Rightarrow> 'img \<Rightarrow> string \<Rightarrow> py_exception + 'img" where
  "normalize_mode R img target_format =
     (if img_mode R img \<in> set [''RGBA'', ''LA'', ''P''] then
        (if lower target_format = ''webp'' \<and> img_mode R img = ''RGBA'' then Inr img
         else if img_mode R img = ''RGBA'' then paste_on_white R img
         else img_convert R img ''RGB'')
      else if img_mode R img \<noteq> ''RGB'' then img_convert R img ''RGB''
      else Inr img)"

text \<open>
  Lines 43-54, the keyword arguments:
  \<^verbatim>\<open>
        save_kwargs = {'quality': quality, 'method': 6}
        if not remove_metadata:
            exif_data = img.getexif()
            if exif_data and target_format.lower() == 'webp':
                save_kwargs['exif'] = exif_data
  \<close>
  where \<^verbatim>\<open>img\<close> is the image after normalisation.
\<close>

definition convert_kwargs ::
  "('img, 'w) runtime \<Rightarrow> 'img \<Rightarrow> string \<Rightarrow> int \<Rightarrow> bool \<Rightarrow> py_exception + save_kwargs" where
  "convert_kwargs R img target_format quality remove_metadata =
     (let save_kwargs = \<lparr>kw_quality = Some quality, kw_optimize = None,
                         kw_method = Some 6, kw_exif = None\<rparr>
      in if \<not> remove_metadata then
           try_then (img_getexif R img) (\<lambda>exif_data.
             if exif_data \<noteq> [] \<and> lower target_format = ''webp''
             then Inr (save_kwargs\<lparr>kw_exif := Some exif_data\<rparr>)
             else Inr save_kwargs)
         else Inr save_kwargs)"

text \<open>Lines 21-54: the original size, the normalised image and the keyword arguments.\<close>

definition convert_prepare ::
  "('img, 'w) runtime \<Rightarrow> string \<Rightarrow> string \<Rightarrow> int \<Rightarrow> bool \<Rightarrow> 'w
     \<Rightarrow> py_exception + (nat \<times> 'img \<times> save_kwargs)" where
  "convert_prepare R input_path target_format quality remove_metadata w =
     try_then (image_open R w input_path) (\<lambda>img.
     try_then (getsize R w input_path) (\<lambda>original_size.
     try_then (normalize_mode R img target_format) (\<lambda>img.
     try_then (convert_kwargs R img target_format quality remove_metadata) (\<lambda>save_kwargs.
       Inr (original_size, img, save_kwargs)))))"

definition convert_message ::
  "('img, 'w) runtime \<Rightarrow> string \<Rightarrow> nat \<Rightarrow> nat \<Rightarrow> rat \<Rightarrow> string" where
  "convert_message R target_format original_size converted_size size_reduction =
     ''Converted to '' @ upper target_format @ '': '' @ format_fixed R 2 (megabytes original_size)
       @ '' MB '' @ arrow @ '' '' @ format_fixed R 2 (megabytes converted_size) @ '' MB (''
       @ format_fixed R 1 size_reduction @ ''% reduction)''"

text \<open>Lines 74-85, after a save that returned.\<close>

definition convert_finish ::
  "('img, 'w) runtime \<Rightarrow> 'w \<Rightarrow> nat \<Rightarrow> string \<Rightarrow> string \<Rightarrow> py_exception + result" where
  "convert_finish R w original_size output_path target_format =
     try_then (getsize R w output_path) (\<lambda>converted_size.
     try_then (size_reduction_pct original_size converted_size) (\<lambda>size_reduction.
       Inr (True, convert_message R target_format original_size converted_size size_reduction,
            size_reduction)))"

text \<open>
  The test of the inner handler (line 68):
  \<^verbatim>\<open>'cannot write mode' in str(avif_error).lower() or 'avif' in str(avif_error).lower()\<close>
\<close>

definition looks_like_missing_plugin :: "py_exception \<Rightarrow> bool" where
  "looks_like_missing_plugin avif_error =
     (py_in ''cannot write mode'' (lower (exc_str avif_error))
      \<or> py_in ''avif'' (lower (exc_str avif_error)))"

definition avif_plugin_message :: string where
  "avif_plugin_message =
     ''AVIF plugin not installed. Install with: pip install pillow-avif-plugin''"

text \<open>
  \<open>convert_image\<close>: the result tuple, the file system it leaves and the calls of
  \<^verbatim>\<open>img.save\<close> it made. Lines 56-72 derive the output path from \<^verbatim>\<open>output_path\<close> and
  dispatch on the target format; the AVIF branch has its own handler, which returns
  the plug-in message or raises the exception again to the outer handler.
\<close>

definition convert_image ::
  "('img, 'w) runtime \<Rightarrow> string \<Rightarrow> string \<Rightarrow> string \<Rightarrow> int \<Rightarrow> bool \<Rightarrow> 'w
     \<Rightarrow> result \<times> 'w \<times> 'img save_call list" where
  "convert_image R input_path output_path target_format quality remove_metadata w =
     (case convert_prepare R input_path target_format quality remove_metadata w of
        Inl e \<Rightarrow> (error_result e, w, [])
      | Inr (original_size, img, save_kwargs) \<Rightarrow>
          let base_name = fst (splitext output_path) in
          if lower target_format = ''webp'' then
            let output_path = base_name @ ''.webp'';
                call = \<lparr>sc_image = img, sc_path = output_path, sc_format = Some ''WEBP'',
                        sc_kwargs = save_kwargs\<rparr>
            in (case img_save R call w of
                  (Some e, w') \<Rightarrow> (error_result e, w', [call])
                | (None, w') \<Rightarrow>
                    (case convert_finish R w' original_size output_path target_format of
                       Inl e \<Rightarrow> (error_result e, w', [call])
                     | Inr r \<Rightarrow> (r, w', [call])))
          else if lower target_format = ''avif'' then
            let output_path = base_name @ ''.avif'';
                call = \<lparr>sc_image = img, sc_path = output_path, sc_format = Some ''AVIF'',
                        sc_kwargs = save_kwargs\<rparr>
            in (case img_save R call w of
                  (Some avif_error, w') \<Rightarrow>
                    if looks_like_missing_plugin avif_error
                    then ((False, avif_plugin_message, 0), w', [call])
                    else (error_result avif_error, w', [call])
                | (None, w') \<Rightarrow>
                    (case convert_finish R w' original_size output_path target_format of
                       Inl e \<Rightarrow> (error_result e, w', [call])
                     | Inr r \<Rightarrow> (r, w', [call])))
          else ((False, ''Unsupported target format: '' @ target_format, 0), w, []))"

section \<open>\<^verbatim>\<open>core/conflict_checker.py\<close>\<close>

text \<open>The dictionary appended for a conflict (lines 62-68).\<close>

record conflict =
  cf_input :: string
  cf_output :: string
  cf_existing_size :: nat
  cf_existing_modified :: rat
  cf_output_filename :: string

text \<open>Lines 32-47: the output file name for one input path.\<close>

definition output_filename :: "string \<Rightarrow> string \<Rightarrow> string" where
  "output_filename input_path output_format =
     (let input_basename = basename input_path
      in if output_format = ''Keep Original'' then input_basename
         else if output_format = ''WebP'' then fst (splitext input_basename) @ ''.webp''
         else if output_format = ''AVIF'' then fst (splitext input_basename) @ ''.avif''
         else input_basename)"

text \<open>Line 49: \<^verbatim>\<open>output_path = os.path.join(output_folder, output_filename)\<close>\<close>

definition predicted_output_path :: "string \<Rightarrow> string \<Rightarrow> string \<Rightarrow> string" where
  "predicted_output_path input_path output_folder output_format =
     join output_folder (output_filename input_path output_format)"

text \<open>
  Lines 53-59: size and time of the existing file; when either read raises, both
  are set to 0.
\<close>

definition existing_info :: "('img, 'w) runtime \<Rightarrow> 'w \<Rightarrow> string \<Rightarrow> nat \<times> rat" where
  "existing_info R w output_path =
     (case try_then (getsize R w output_path) (\<lambda>existing_size.
           try_then (getmtime R w output_path) (\<lambda>existing_modified.
             Inr (existing_size, existing_modified)))
      of Inl e \<Rightarrow> (0, 0) | Inr r \<Rightarrow> r)"

fun check_conflicts ::
  "('img, 'w) runtime \<Rightarrow> 'w \<Rightarrow> string list \<Rightarrow> string \<Rightarrow> string \<Rightarrow> conflict list" where
  "check_conflicts R w [] output_folder output_format = []"
| "check_conflicts R w (input_path # image_paths) output_folder output_format =
     (let output_path = predicted_output_path input_path output_folder output_format
      in if path_exists R w output_path
         then \<lparr>cf_input = input_path, cf_output = output_path,
               cf_existing_size = fst (existing_info R w output_path),
               cf_existing_modified = snd (existing_info R w output_path),
               cf_output_filename = output_filename input_path output_format\<rparr>
              # check_conflicts R w image_paths output_folder output_format
         else check_conflicts R w image_paths output_folder output_format)"

section \<open>\<^verbatim>\<open>utils/metadata.py\<close>\<close>

definition has_exif_data :: "('img, 'w) runtime \<Rightarrow> 'w \<Rightarrow> string \<Rightarrow> bool" where
  "has_exif_data R w image_path =
     (case try_then (image_open R w image_path) (\<lambda>img.
           try_then (img_getexif R img) (\<lambda>exif_data.
             Inr (exif_data \<noteq> [])))
      of Inl e \<Rightarrow> False | Inr b \<Rightarrow> b)"

text \<open>\<^verbatim>\<open>save(output_path, format=img_format)\<close> passes no keyword argument.\<close>

definition no_kwargs :: save_kwargs where
  "no_kwargs = \<lparr>kw_quality = None, kw_optimize = None, kw_method = None, kw_exif = None\<rparr>"

text \<open>
  Lines 61-72 of \<open>strip_metadata\<close>, up to the save: a new image of the same mode and
  size (\<^verbatim>\<open>Image.new(img.mode, img.size)\<close>, filled with 0), given the pixel data of the
  source.
\<close>

definition strip_prepare ::
  "('img, 'w) runtime \<Rightarrow> string \<Rightarrow> string \<Rightarrow> 'w \<Rightarrow> py_exception + 'img save_call" where
  "strip_prepare R image_path output_path w =
     try_then (image_open R w image_path) (\<lambda>img.
       let img_format = img_format R img in
       try_then (img_getdata R img) (\<lambda>data.
       try_then (image_new R (img_mode R img) (img_size R img) [0]) (\<lambda>image_without_exif.
       try_then (img_putdata R image_without_exif data) (\<lambda>image_without_exif.
         Inr \<lparr>sc_image = image_without_exif, sc_path = output_path, sc_format = img_format,
              sc_kwargs = no_kwargs\<rparr>))))"

definition strip_metadata ::
  "('img, 'w) runtime \<Rightarrow> string \<Rightarrow> string \<Rightarrow> 'w
     \<Rightarrow> (bool \<times> string) \<times> 'w \<times> 'img save_call list" where
  "strip_metadata R image_path output_path w =
     (case strip_prepare R image_path output_path w of
        Inl e \<Rightarrow> ((False, ''Error removing metadata: '' @ exc_str e), w, [])
      | Inr call \<Rightarrow>
          (case img_save R call w of
             (Some e, w') \<Rightarrow> ((False, ''Error removing metadata: '' @ exc_str e), w', [call])
           | (None, w') \<Rightarrow> ((True, ''Metadata removed successfully''), w', [call])))"

section \<open>A reference runtime\<close>

text \<open>
  One concrete runtime, small enough to evaluate, on which the theorems below are
  instantiated. An image is its mode, size, format, the EXIF entry of its \<^verbatim>\<open>info\<close>
  dictionary and its pixels (one list of band values per pixel). A file is its size in
  bytes, its modification time and, when it is an image file, the image it decodes to.
  The file system also says which directories exist, which encoders are registered and
  whether the disk is full.
\<close>

record ref_image =
  ri_mode :: string
  ri_size :: "nat \<times> nat"
  ri_format :: "string option"
  ri_exif :: exif
  ri_data :: "nat list list"

record ref_file =
  rf_bytes :: nat
  rf_mtime :: rat
  rf_image :: "ref_image option"

record ref_world =
  rw_files :: "(string \<times> ref_file) list"
  rw_dirs :: "string list"
  rw_encoders :: "string list"
  rw_disk_full :: bool

definition quoted :: "string \<Rightarrow> string" where
  "quoted s = [CHR 0x27] @ s @ [CHR 0x27]"

text \<open>The decimal digits of a number.\<close>

function decimal :: "nat \<Rightarrow> string" where
  "decimal n =
     (if n < 10 then [char_of (48 + n)] else decimal (n div 10) @ [char_of (48 + n mod 10)])"
  by pat_completeness auto
termination
  by (relation "measure id") auto

declare decimal.simps [simp del]

text \<open>
  Opening an image file. A TIFF file is a directory of tags, and \<^verbatim>\<open>getexif\<close> on an
  opened TIFF reads that directory: besides the EXIF that was stored, it reports the
  file's own tags, of which the image width (256) and length (257) are always there.
\<close>

definition ref_tiff_directory :: "ref_image \<Rightarrow> exif" where
  "ref_tiff_directory img =
     [(256, decimal (fst (ri_size img))), (257, decimal (snd (ri_size img)))]"

definition ref_open :: "ref_world \<Rightarrow> string \<Rightarrow> py_exception + ref_image" where
  "ref_open w p =
     (case map_of (rw_files w) p of
        None \<Rightarrow> Inl (PyException ''FileNotFoundError''
                      (''[Errno 2] No such file or directory: '' @ quoted p))
      | Some f \<Rightarrow>
          (case rf_image f of
             None \<Rightarrow> Inl (PyException ''UnidentifiedImageError''
                           (''cannot identify image file '' @ quoted p))
           | Some img \<Rightarrow>
               if ri_format img = Some ''TIFF''
               then Inr (img\<lparr>ri_exif := ref_tiff_directory img @ ri_exif img\<rparr>)
               else Inr img))"

definition ref_getsize :: "ref_world \<Rightarrow> string \<Rightarrow> py_exception + nat" where
  "ref_getsize w p =
     (case map_of (rw_files w) p of
        None \<Rightarrow> Inl (PyException ''FileNotFoundError''
                      (''[Errno 2] No such file or directory: '' @ quoted p))
      | Some f \<Rightarrow> Inr (rf_bytes f))"

definition ref_getmtime :: "ref_world \<Rightarrow> string \<Rightarrow> py_exception + rat" where
  "ref_getmtime w p =
     (case map_of (rw_files w) p of
        None \<Rightarrow> Inl (PyException ''FileNotFoundError''
                      (''[Errno 2] No such file or directory: '' @ quoted p))
      | Some f \<Rightarrow> Inr (rf_mtime f))"

definition ref_exists :: "ref_world \<Rightarrow> string \<Rightarrow> bool" where
  "ref_exists w p = (map_of (rw_files w) p \<noteq> None)"

definition ref_bands :: "string \<Rightarrow> nat" where
  "ref_bands m =
     (if m = ''RGBA'' then 4 else if m = ''RGB'' then 3 else if m = ''LA'' then 2 else 1)"

text \<open>
  Conversion to RGB drops the alpha band and repeats a single grey (or palette) value.
  Like Pillow's \<^verbatim>\<open>Image.convert\<close>, which builds its result with \<^verbatim>\<open>Image._new\<close>, it
  copies the \<^verbatim>\<open>info\<close> dictionary: the converted image has no format and the EXIF entry
  of the source.
\<close>

definition ref_pixel_to_rgb :: "string \<Rightarrow> nat list \<Rightarrow> nat list" where
  "ref_pixel_to_rgb m px =
     (if m = ''RGBA'' \<or> m = ''RGB'' then take 3 px
      else (case px of [] \<Rightarrow> [0, 0, 0] | v # _ \<Rightarrow> [v, v, v]))"

definition ref_convert :: "ref_image \<Rightarrow> string \<Rightarrow> py_exception + ref_image" where
  "ref_convert img m =
     (if m = ''RGB''
      then Inr (img\<lparr>ri_mode := ''RGB'', ri_format := None,
                    ri_data := map (ref_pixel_to_rgb (ri_mode img)) (ri_data img)\<rparr>)
      else Inl (PyException ''ValueError'' ''conversion not supported''))"

text \<open>A new image has an empty \<^verbatim>\<open>info\<close> dictionary.\<close>

definition ref_new :: "string \<Rightarrow> nat \<times> nat \<Rightarrow> nat list \<Rightarrow> py_exception + ref_image" where
  "ref_new m sz color =
     Inr \<lparr>ri_mode = m, ri_size = sz, ri_format = None, ri_exif = [],
          ri_data = map (\<lambda>_. take (ref_bands m) (color @ map (\<lambda>_. last (0 # color)) [0 ..< ref_bands m]))
                        [0 ..< fst sz * snd sz]\<rparr>"

definition ref_split :: "ref_image \<Rightarrow> py_exception + ref_image list" where
  "ref_split img =
     Inr (map (\<lambda>i. img\<lparr>ri_mode := ''L'', ri_format := None,
                         ri_data := map (\<lambda>px. [px ! i]) (ri_data img)\<rparr>)
              [0 ..< ref_bands (ri_mode img)])"

definition ref_blend :: "nat list \<Rightarrow> nat list \<Rightarrow> nat list \<Rightarrow> nat list" where
  "ref_blend bg_px src_px mask_px =
     (let a = (case mask_px of [] \<Rightarrow> 255 | v # _ \<Rightarrow> v)
      in map (\<lambda>(b, s). (s * a + b * (255 - a)) div 255) (zip bg_px src_px))"

definition ref_paste :: "ref_image \<Rightarrow> ref_image \<Rightarrow> ref_image \<Rightarrow> py_exception + ref_image" where
  "ref_paste background img mask_img =
     Inr (background\<lparr>ri_data :=
            map (\<lambda>(b, s, m). ref_blend b s m)
                (zip (ri_data background) (zip (ri_data img) (ri_data mask_img)))\<rparr>)"

definition ref_encoded_size :: "ref_image save_call \<Rightarrow> nat" where
  "ref_encoded_size call =
     64 + (length (concat (ri_data (sc_image call)))
           * nat (case kw_quality (sc_kwargs call) of None \<Rightarrow> 75 | Some q \<Rightarrow> q)) div 100
        + (case kw_exif (sc_kwargs call) of None \<Rightarrow> 0 | Some x \<Rightarrow> 16 * length x)"

text \<open>
  Saving. A format without a registered encoder raises \<^verbatim>\<open>KeyError(format)\<close> before
  any file is opened, as the look-up \<^verbatim>\<open>SAVE[format.upper()]\<close> does. Otherwise the
  file is opened for writing, which raises \<^verbatim>\<open>FileNotFoundError\<close>, naming the path, when
  its directory does not exist. On a full disk the write then fails, and a file that
  existed before is left truncated to nothing (a file that did not exist is removed
  again). The file written holds the pixels, and only the EXIF passed as a keyword
  argument.
\<close>

definition ref_write :: "string \<Rightarrow> ref_file \<Rightarrow> ref_world \<Rightarrow> ref_world" where
  "ref_write p f w = w\<lparr>rw_files := (p, f) # filter (\<lambda>(q, _). q \<noteq> p) (rw_files w)\<rparr>"

definition ref_save :: "ref_image save_call \<Rightarrow> ref_world \<Rightarrow> py_exception option \<times> ref_world" where
  "ref_save call w =
     (case sc_format call of
        None \<Rightarrow> (Some (PyException ''ValueError'' ''unknown file extension''), w)
      | Some f \<Rightarrow>
          if f \<notin> set (rw_encoders w) then (Some (PyException ''KeyError'' (quoted f)), w)
          else if dirname (sc_path call) \<notin> set (rw_dirs w) then
            (Some (PyException ''FileNotFoundError''
                     (''[Errno 2] No such file or directory: '' @ quoted (sc_path call))), w)
          else if rw_disk_full w then
            (Some (PyException ''OSError'' ''[Errno 28] No space left on device''),
             if ref_exists w (sc_path call)
             then ref_write (sc_path call) \<lparr>rf_bytes = 0, rf_mtime = 0, rf_image = None\<rparr> w
             else w)
          else
            (None,
             ref_write (sc_path call)
               \<lparr>rf_bytes = ref_encoded_size call, rf_mtime = 0,
                rf_image = Some ((sc_image call)\<lparr>ri_format := Some f,
                  ri_exif := (case kw_exif (sc_kwargs call) of None \<Rightarrow> [] | Some x \<Rightarrow> x)\<rparr>)\<rparr>
               w))"

text \<open>Fixed-point formatting, rounding half to even.\<close>

definition ref_format_fixed :: "nat \<Rightarrow> rat \<Rightarrow> string" where
  "ref_format_fixed d x =
     (let n = nat (round_half_even (\<bar>x\<bar> * 10 ^ d));
          frac = decimal (n mod 10 ^ d)
      in (if x < 0 then ''-'' else []) @ decimal (n div 10 ^ d)
         @ (if d = 0 then [] else ''.'' @ replicate (d - length frac) CHR ''0'' @ frac))"

definition ref_runtime :: "(ref_image, ref_world) runtime" where
  "ref_runtime =
     \<lparr>image_open = ref_open, getsize = ref_getsize, getmtime = ref_getmtime,
      path_exists = ref_exists, img_mode = ri_mode, img_size = ri_size,
      img_format = ri_format, img_convert = ref_convert, image_new = ref_new,
      img_split = ref_split, img_paste = ref_paste,
      img_getexif = (\<lambda>img. Inr (ri_exif img)),
      img_getdata = (\<lambda>img. Inr (ri_data img)),
      img_putdata = (\<lambda>img data. Inr (img\<lparr>ri_data := data\<rparr>)),
      img_save = ref_save, format_fixed = ref_format_fixed\<rparr>"

text \<open>
  Sample files: a 2x1 RGBA PNG with an orientation tag, a 1x1 grey-with-alpha PNG, a
  1x1 palette PNG, a 2x1 grey JPEG with an orientation tag, a 1x1 RGB TIFF with an
  orientation tag, and a file that is no image.
\<close>

definition rgba_png :: ref_image where
  "rgba_png = \<lparr>ri_mode = ''RGBA'', ri_size = (2, 1), ri_format = Some ''PNG'',
               ri_exif = [(274, ''1'')], ri_data = [[10, 20, 30, 255], [200, 100, 0, 0]]\<rparr>"

definition la_png :: ref_image where
  "la_png = \<lparr>ri_mode = ''LA'', ri_size = (1, 1), ri_format = Some ''PNG'',
             ri_exif = [], ri_data = [[90, 128]]\<rparr>"

definition p_png :: ref_image where
  "p_png = \<lparr>ri_mode = ''P'', ri_size = (1, 1), ri_format = Some ''PNG'',
            ri_exif = [], ri_data = [[7]]\<rparr>"

definition grey_jpeg :: ref_image where
  "grey_jpeg = \<lparr>ri_mode = ''L'', ri_size = (2, 1), ri_format = Some ''JPEG'',
                ri_exif = [(274, ''6'')], ri_data = [[17], [250]]\<rparr>"

definition scan_tiff :: ref_image where
  "scan_tiff = \<lparr>ri_mode = ''RGB'', ri_size = (1, 1), ri_format = Some ''TIFF'',
                ri_exif = [(274, ''1'')], ri_data = [[1, 2, 3]]\<rparr>"

definition sample_files :: "(string \<times> ref_file) list" where
  "sample_files =
     [(''in/rgba.png'', \<lparr>rf_bytes = 80, rf_mtime = 10, rf_image = Some rgba_png\<rparr>),
      (''in/la.png'', \<lparr>rf_bytes = 70, rf_mtime = 11, rf_image = Some la_png\<rparr>),
      (''in/p.png'', \<lparr>rf_bytes = 68, rf_mtime = 12, rf_image = Some p_png\<rparr>),
      (''in/grey.jpg'', \<lparr>rf_bytes = 400, rf_mtime = 13, rf_image = Some grey_jpeg\<rparr>),
      (''in/scan.tif'', \<lparr>rf_bytes = 200, rf_mtime = 16, rf_image = Some scan_tiff\<rparr>),
      (''in/notes.txt'', \<lparr>rf_bytes = 5, rf_mtime = 14, rf_image = None\<rparr>),
      (''out/grey.jpg'', \<lparr>rf_bytes = 300, rf_mtime = 15, rf_image = Some grey_jpeg\<rparr>)]"

text \<open>
  Three file systems over these files, with the directories \<^verbatim>\<open>in\<close>, \<^verbatim>\<open>out\<close> and
  \<^verbatim>\<open>out.d\<close>: one with every encoder, one without the AVIF plug-in, and one whose disk is
  full.
\<close>

definition world_full_codecs :: ref_world where
  "world_full_codecs =
     \<lparr>rw_files = sample_files, rw_dirs = [''in'', ''out'', ''out.d''],
      rw_encoders = [''PNG'', ''JPEG'', ''TIFF'', ''WEBP'', ''AVIF''], rw_disk_full = False\<rparr>"

definition world_no_avif :: ref_world where
  "world_no_avif =
     \<lparr>rw_files = sample_files, rw_dirs = [''in'', ''out'', ''out.d''],
      rw_encoders = [''PNG'', ''JPEG'', ''TIFF'', ''WEBP''], rw_disk_full = False\<rparr>"

definition world_disk_full :: ref_world where
  "world_disk_full =
     \<lparr>rw_files = sample_files, rw_dirs = [''in'', ''out'', ''out.d''],
      rw_encoders = [''PNG'', ''JPEG'', ''TIFF'', ''WEBP'', ''AVIF''], rw_disk_full = True\<rparr>"

section \<open>What the core needs of its environment\<close>

text \<open>
  The AVIF encoder is missing in a file system state \<open>w\<close>: Pillow looks the encoder
  up by format name before it opens any file, and the look-up raises
  \<^verbatim>\<open>KeyError('AVIF')\<close>, whose \<^verbatim>\<open>str\<close> is the quoted name; the file system stays as it
  is.
\<close>

definition avif_encoder_missing :: "('img, 'w) runtime \<Rightarrow> 'w \<Rightarrow> bool" where
  "avif_encoder_missing R w =
     (\<forall>call. sc_format call = Some ''AVIF''
        \<longrightarrow> img_save R call w = (Some (PyException ''KeyError'' (quoted ''AVIF'')), w))"

section \<open>Properties\<close>

subsection \<open>Quality validation\<close>

lemma validate_quality_int: "validate_quality (PyInt n) = Inr (clamp n 1 100)"
  by (simp add: validate_quality_def py_int_def try_then_def clamp_def)

lemma validate_quality_float:
  "validate_quality (PyFloat q) = Inr (clamp (if 0 \<le> q then \<lfloor>q\<rfloor> else \<lceil>q\<rceil>) 1 100)"
  by (simp add: validate_quality_def py_int_def try_then_def clamp_def)

lemma clamp_range: "1 \<le> clamp n 1 100 \<and> clamp n 1 100 \<le> 100"
  by (simp add: clamp_def)

text \<open>
  Claim C8, as amended. For every integer and every finite float, \<open>validate_quality\<close>
  returns an integer between 1 and 100; an integer already in that range comes back
  unchanged; a float is truncated toward zero and then clamped, so that 0.9 gives 1
  and 100.9 gives 100. For the floats \<open>inf\<close>, \<open>-inf\<close> and \<open>nan\<close> the call returns no
  value: \<^verbatim>\<open>int\<close> raises \<^verbatim>\<open>OverflowError\<close> on the two infinities and \<^verbatim>\<open>ValueError\<close> on
  \<open>nan\<close>, and nothing in \<open>validate_quality\<close> catches it.
\<close>

theorem validate_quality_finite:
  "(\<exists>r. validate_quality (PyInt n) = Inr r \<and> 1 \<le> r \<and> r \<le> 100)
   \<and> (\<exists>r. validate_quality (PyFloat q) = Inr r \<and> 1 \<le> r \<and> r \<le> 100)
   \<and> (1 \<le> n \<and> n \<le> 100 \<longrightarrow> validate_quality (PyInt n) = Inr n)
   \<and> validate_quality (PyFloat q) = validate_quality (PyInt (if 0 \<le> q then \<lfloor>q\<rfloor> else \<lceil>q\<rceil>))
   \<and> validate_quality (PyFloat (9 / 10)) = Inr 1
   \<and> validate_quality (PyFloat (1009 / 10)) = Inr 100
   \<and> validate_quality PyInf
       = Inl (PyException ''OverflowError'' ''cannot convert float infinity to integer'')
   \<and> validate_quality PyNegInf
       = Inl (PyException ''OverflowError'' ''cannot convert float infinity to integer'')
   \<and> validate_quality PyNaN
       = Inl (PyException ''ValueError'' ''cannot convert float NaN to integer'')"
proof -
  have a: "\<exists>r. validate_quality (PyInt n) = Inr r \<and> 1 \<le> r \<and> r \<le> 100"
    using clamp_range [of n] by (simp add: validate_quality_int)
  have b: "\<exists>r. validate_quality (PyFloat q) = Inr r \<and> 1 \<le> r \<and> r \<le> 100"
    using clamp_range by (simp add: validate_quality_float)
  have c: "1 \<le> n \<and> n \<le> 100 \<longrightarrow> validate_quality (PyInt n) = Inr n"
    by (simp add: validate_quality_int clamp_def)
  have d: "validate_quality (PyFloat q) = validate_quality (PyInt (if 0 \<le> q then \<lfloor>q\<rfloor> else \<lceil>q\<rceil>))"
    by (simp only: validate_quality_int validate_quality_float)
  have "\<lfloor>9 / 10 :: rat\<rfloor> = 0"
    by (simp add: floor_eq_iff)
  then have e: "validate_quality (PyFloat (9 / 10)) = Inr 1"
    by (simp add: validate_quality_float clamp_def)
  have "\<lfloor>1009 / 10 :: rat\<rfloor> = 100"
    by (simp add: floor_eq_iff)
  then have f: "validate_quality (PyFloat (1009 / 10)) = Inr 100"
    by (simp add: validate_quality_float clamp_def)
  have g: "validate_quality PyInf
       = Inl (PyException ''OverflowError'' ''cannot convert float infinity to integer'')"
    by (simp add: validate_quality_def py_int_def try_then_def)
  have h: "validate_quality PyNegInf
       = Inl (PyException ''OverflowError'' ''cannot convert float infinity to integer'')"
    by (simp add: validate_quality_def py_int_def try_then_def)
  have i: "validate_quality PyNaN
       = Inl (PyException ''ValueError'' ''cannot convert float NaN to integer'')"
    by (simp add: validate_quality_def py_int_def try_then_def)
  from a b c d e f g h i show ?thesis by (intro conjI)
qed

theorem validate_quality_finite_witness:
  "validate_quality (PyInt 85) = Inr 85 \<and> validate_quality (PyInt 250) = Inr 100
   \<and> validate_quality (PyFloat (- 7 / 2)) = Inr 1"
proof -
  have "validate_quality (PyInt 85) = Inr 85"
    using validate_quality_finite [of 85 0] by simp
  moreover have "validate_quality (PyInt 250) = Inr 100"
    using validate_quality_finite [of 250 0] by (simp add: validate_quality_int clamp_def)
  moreover have "\<lceil>- 7 / 2 :: rat\<rceil> = - 3"
    by (simp add: ceiling_eq_iff)
  then have "validate_quality (PyFloat (- 7 / 2)) = Inr 1"
    using validate_quality_finite [of 0 "- 7 / 2"] by (simp add: validate_quality_int clamp_def)
  ultimately show ?thesis by simp
qed

text \<open>
  Claim C8 as stated ("for every numeric input ... returns an integer in [1,100]")
  fails at the float infinity: \<^verbatim>\<open>int(float('inf'))\<close> raises \<^verbatim>\<open>OverflowError\<close>, and
  \<open>validate_quality\<close> has no handler.
\<close>

theorem validate_quality_infinity_raises:
  "validate_quality PyInf =
     Inl (PyException ''OverflowError'' ''cannot convert float infinity to integer'')"
  by (simp add: validate_quality_def py_int_def try_then_def)

subsection \<open>The shape of a run\<close>

lemma try_then_Inr_iff: "try_then m f = Inr y \<longleftrightarrow> (\<exists>x. m = Inr x \<and> f x = Inr y)"
  by (cases m) (simp_all add: try_then_def)

lemma leading_dots_only_stop: "\<not> i < d \<Longrightarrow> leading_dots_only p i d = True"
  by (subst leading_dots_only.simps) simp

lemma leading_dots_only_step:
  "i < d \<Longrightarrow> leading_dots_only p i d =
     (if take 1 (drop i p) \<noteq> ''.'' then False else leading_dots_only p (i + 1) d)"
  by (subst leading_dots_only.simps) simp

lemmas path_defs = splitext_def rfind_def basename_def join_def lower_def lower_char_def
  upper_def upper_char_def ascii_upper_letters_def ascii_lower_letters_def

lemmas core_defs = convert_image_def convert_prepare_def convert_kwargs_def normalize_mode_def
  paste_on_white_def convert_finish_def compress_image_def compress_prepare_def
  compress_finish_def jpeg_rgba_to_rgb_def size_reduction_pct_def py_true_divide_def
  error_result_def
  try_then_def py_index_def looks_like_missing_plugin_def avif_plugin_message_def
  strip_metadata_def strip_prepare_def has_exif_data_def no_kwargs_def

lemmas ref_defs = ref_runtime_def ref_open_def ref_getsize_def ref_getmtime_def ref_exists_def
  ref_bands_def ref_pixel_to_rgb_def ref_convert_def ref_new_def ref_split_def ref_blend_def
  ref_paste_def ref_encoded_size_def ref_write_def ref_save_def quoted_def
  ref_tiff_directory_def dirname_def
  rgba_png_def la_png_def p_png_def grey_jpeg_def scan_tiff_def sample_files_def
  world_full_codecs_def world_no_avif_def world_disk_full_def

lemmas eval_simps = core_defs ref_defs path_defs Let_def upt_conv_Cons
  leading_dots_only_stop leading_dots_only_step

text \<open>
  Every call of \<^verbatim>\<open>img.save\<close> that \<open>convert_image\<close> makes is its only one, is made after
  the preparation has succeeded, on the image and the keyword arguments prepared, to
  the path derived from \<^verbatim>\<open>output_path\<close>; the file system returned is the one the
  call left.
\<close>

lemma convert_prepare_Inr:
  "convert_prepare R inp tf q rm w = Inr (orig, img, kw) \<longleftrightarrow>
     (\<exists>src. image_open R w inp = Inr src \<and> getsize R w inp = Inr orig
            \<and> normalize_mode R src tf = Inr img \<and> convert_kwargs R img tf q rm = Inr kw)"
  by (auto simp: convert_prepare_def try_then_Inr_iff)

lemma convert_image_call:
  assumes "convert_image R inp out tf q rm w = (r, w', calls)" and "c \<in> set calls"
  shows "\<exists>orig. convert_prepare R inp tf q rm w = Inr (orig, sc_image c, sc_kwargs c)
           \<and> calls = [c] \<and> w' = snd (img_save R c w)
           \<and> sc_path c = fst (splitext out) @ (if lower tf = ''webp'' then ''.webp'' else ''.avif'')
           \<and> sc_format c = Some (if lower tf = ''webp'' then ''WEBP'' else ''AVIF'')
           \<and> (lower tf = ''webp'' \<or> lower tf = ''avif'')"
  using assms
  by (auto simp: convert_image_def Let_def split: sum.splits prod.splits option.splits if_splits)

lemma convert_image_no_call:
  assumes "convert_image R inp out tf q rm w = (r, w', [])"
  shows "w' = w \<and> fst r = False"
  using assms
  by (auto simp: convert_image_def Let_def error_result_def
           split: sum.splits prod.splits option.splits if_splits)

lemma compress_image_call:
  assumes "compress_image R inp out q rm w = (r, w', calls)" and "c \<in> set calls"
  shows "\<exists>orig. compress_prepare R inp out q rm w = Inr (orig, c)
           \<and> calls = [c] \<and> w' = snd (img_save R c w)"
  using assms
  by (auto simp: compress_image_def Let_def split: sum.splits prod.splits option.splits if_splits)

lemma compress_image_no_call:
  assumes "compress_image R inp out q rm w = (r, w', [])"
  shows "w' = w \<and> fst r = False"
  using assms
  by (auto simp: compress_image_def Let_def error_result_def
           split: sum.splits prod.splits option.splits if_splits)

lemma compress_prepare_call:
  assumes "compress_prepare R inp out q rm w = Inr (orig, c)"
  shows "sc_path c = out \<and> kw_quality (sc_kwargs c) = Some q \<and> getsize R w inp = Inr orig"
  using assms
  by (auto simp: compress_prepare_def Let_def try_then_Inr_iff split: if_splits)

lemma convert_kwargs_quality:
  "convert_kwargs R img tf q rm = Inr kw \<Longrightarrow> kw_quality kw = Some q"
  by (auto simp: convert_kwargs_def Let_def try_then_Inr_iff split: if_splits)

lemma py_index_Inr: "py_index xs i = Inr x \<longleftrightarrow> i < length xs \<and> x = xs ! i"
  by (auto simp: py_index_def)

lemma paste_on_white_Inr:
  assumes "paste_on_white R img = Inr out"
  shows "\<exists>background bands. image_new R ''RGB'' (img_size R img) [255, 255, 255] = Inr background
        \<and> img_split R img = Inr bands \<and> 3 < length bands
        \<and> img_paste R background img (bands ! 3) = Inr out"
proof -
  from assms obtain background
    where bg: "image_new R ''RGB'' (img_size R img) [255, 255, 255] = Inr background"
      and r1: "try_then (img_split R img) (\<lambda>bands. try_then (py_index bands 3)
                 (\<lambda>mask. img_paste R background img mask)) = Inr out"
    unfolding paste_on_white_def try_then_Inr_iff by blast
  from r1 obtain bands
    where sp: "img_split R img = Inr bands"
      and r2: "try_then (py_index bands 3) (\<lambda>mask. img_paste R background img mask) = Inr out"
    unfolding try_then_Inr_iff by blast
  from r2 obtain m where ix: "py_index bands 3 = Inr m"
      and ps: "img_paste R background img m = Inr out"
    unfolding try_then_Inr_iff by blast
  from ix have "3 < length bands" and "m = bands ! 3"
    by (simp_all add: py_index_Inr)
  with bg sp ps show ?thesis by blast
qed

subsection \<open>Quality handed to the encoder\<close>

text \<open>
  Claim C2, as amended. \<open>compress_image\<close> and \<open>convert_image\<close> hand the quality they
  are given to the encoder as it is: every call of \<^verbatim>\<open>img.save\<close> they make carries
  \<^verbatim>\<open>quality=quality\<close>. The clamping lives in \<open>validate_quality\<close> alone, which maps an
  integer \<open>n\<close> to \<open>clamp n 1 100\<close>; the encoder receives the clamped value when the
  caller passes the quality through \<open>validate_quality\<close> first.
\<close>

theorem quality_handed_to_encoder:
  "(\<forall>r w' calls c. compress_image R inp out q rm w = (r, w', calls) \<and> c \<in> set calls
       \<longrightarrow> kw_quality (sc_kwargs c) = Some q)
   \<and> (\<forall>r w' calls c. convert_image R inp out tf q rm w = (r, w', calls) \<and> c \<in> set calls
       \<longrightarrow> kw_quality (sc_kwargs c) = Some q)
   \<and> (\<forall>n v r w' calls c. validate_quality (PyInt n) = Inr v
         \<and> compress_image R inp out v rm w = (r, w', calls) \<and> c \<in> set calls
       \<longrightarrow> kw_quality (sc_kwargs c) = Some (clamp n 1 100))"
proof (intro conjI allI impI)
  fix r w' calls c
  assume h: "compress_image R inp out q rm w = (r, w', calls) \<and> c \<in> set calls"
  then obtain orig where "compress_prepare R inp out q rm w = Inr (orig, c)"
    using compress_image_call [of R inp out q rm w r w' calls c] by blast
  then show "kw_quality (sc_kwargs c) = Some q"
    by (simp add: compress_prepare_call)
next
  fix r w' calls c
  assume h: "convert_image R inp out tf q rm w = (r, w', calls) \<and> c \<in> set calls"
  then obtain orig where "convert_prepare R inp tf q rm w = Inr (orig, sc_image c, sc_kwargs c)"
    using convert_image_call [of R inp out tf q rm w r w' calls c] by blast
  then have "convert_kwargs R (sc_image c) tf q rm = Inr (sc_kwargs c)"
    unfolding convert_prepare_Inr by blast
  then show "kw_quality (sc_kwargs c) = Some q"
    by (rule convert_kwargs_quality)
next
  fix n v r w' calls c
  assume h: "validate_quality (PyInt n) = Inr v
     \<and> compress_image R inp out v rm w = (r, w', calls) \<and> c \<in> set calls"
  then have v: "v = clamp n 1 100"
    by (simp add: validate_quality_int)
  from h obtain orig where "compress_prepare R inp out v rm w = Inr (orig, c)"
    using compress_image_call [of R inp out v rm w r w' calls c] by blast
  then show "kw_quality (sc_kwargs c) = Some (clamp n 1 100)"
    using v by (simp add: compress_prepare_call)
qed

theorem quality_handed_to_encoder_witness:
  "map (\<lambda>c. kw_quality (sc_kwargs c))
     (snd (snd (compress_image ref_runtime ''in/grey.jpg'' ''out/grey.jpg'' 85 False
                  world_full_codecs))) = [Some 85]
   \<and> map (\<lambda>c. kw_quality (sc_kwargs c))
     (snd (snd (convert_image ref_runtime ''in/grey.jpg'' ''out/grey.jpg'' ''webp'' 85 False
                  world_full_codecs))) = [Some 85]"
proof -
  let ?a = "compress_image ref_runtime ''in/grey.jpg'' ''out/grey.jpg'' 85 False world_full_codecs"
  let ?b = "convert_image ref_runtime ''in/grey.jpg'' ''out/grey.jpg'' ''webp'' 85 False
              world_full_codecs"
  have la: "length (snd (snd ?a)) = 1" by (simp add: eval_simps)
  have lb: "length (snd (snd ?b)) = 1" by (simp add: eval_simps)
  from la obtain ca where ca: "snd (snd ?a) = [ca]"
    by (cases "snd (snd ?a)") auto
  from lb obtain cb where cb: "snd (snd ?b) = [cb]"
    by (cases "snd (snd ?b)") auto
  have "?a = (fst ?a, fst (snd ?a), snd (snd ?a))" by simp
  moreover have "ca \<in> set (snd (snd ?a))" using ca by simp
  ultimately have qa: "kw_quality (sc_kwargs ca) = Some 85"
    using quality_handed_to_encoder [of ref_runtime "''in/grey.jpg''" "''out/grey.jpg''" 85 False
        world_full_codecs "''webp''"]
    by blast
  have "?b = (fst ?b, fst (snd ?b), snd (snd ?b))" by simp
  moreover have "cb \<in> set (snd (snd ?b))" using cb by simp
  ultimately have qb: "kw_quality (sc_kwargs cb) = Some 85"
    using quality_handed_to_encoder [of ref_runtime "''in/grey.jpg''" "''out/grey.jpg''" 85 False
        world_full_codecs "''webp''"]
    by blast
  show ?thesis using ca cb qa qb by simp
qed

text \<open>
  Claim C2 as stated fails: given quality 150, \<open>compress_image\<close> succeeds and the
  encoder has received 150, not \<open>clamp 150 1 100 = 100\<close>.
\<close>

theorem quality_not_clamped_by_compress:
  "map (\<lambda>c. kw_quality (sc_kwargs c))
     (snd (snd (compress_image ref_runtime ''in/grey.jpg'' ''out/grey.jpg'' 150 False
                  world_full_codecs))) = [Some 150]
   \<and> fst (fst (compress_image ref_runtime ''in/grey.jpg'' ''out/grey.jpg'' 150 False
                  world_full_codecs)) = True
   \<and> clamp 150 1 100 = 100"
  by (simp add: eval_simps clamp_def)

subsection \<open>Colour-mode normalisation\<close>

lemma normalize_mode_Inr:
  assumes "normalize_mode R src tf = Inr img"
  shows "(img_mode R src = ''RGBA'' \<and> lower tf = ''webp'' \<longrightarrow> img = src)
       \<and> (img_mode R src = ''RGBA'' \<and> lower tf \<noteq> ''webp'' \<longrightarrow> paste_on_white R src = Inr img)
       \<and> (img_mode R src = ''LA'' \<or> img_mode R src = ''P'' \<longrightarrow> img_convert R src ''RGB'' = Inr img)
       \<and> (img_mode R src \<notin> set [''RGBA'', ''LA'', ''P'', ''RGB'']
            \<longrightarrow> img_convert R src ''RGB'' = Inr img)
       \<and> (img_mode R src = ''RGB'' \<longrightarrow> img = src)"
  using assms by (auto simp: normalize_mode_def split: if_splits)

lemma convert_image_call_source:
  assumes "convert_image R inp out tf q rm w = (r, w', calls)" and "c \<in> set calls"
    and "image_open R w inp = Inr src"
  shows "normalize_mode R src tf = Inr (sc_image c)"
proof -
  from convert_image_call [OF assms(1,2)] obtain orig
    where "convert_prepare R inp tf q rm w = Inr (orig, sc_image c, sc_kwargs c)" by blast
  then obtain src' where "image_open R w inp = Inr src'"
    and "normalize_mode R src' tf = Inr (sc_image c)"
    unfolding convert_prepare_Inr by blast
  with assms(3) show ?thesis by simp
qed

text \<open>
  Claim C1, as amended. Whenever \<open>convert_image\<close> calls the encoder, the image it
  hands over is: the source itself when the source mode is RGBA and the target is
  WebP; for an RGBA source and any other target, a new white RGB image of the same
  size onto which the source has been pasted with its fourth band (alpha) as the mask;
  for the modes LA and P, whatever the target, and for every other mode that is not
  RGB, the result of \<^verbatim>\<open>img.convert('RGB')\<close>, with no compositing; and the source itself
  when its mode is RGB.
\<close>

theorem convert_image_mode_policy:
  assumes "convert_image R inp out tf q rm w = (r, w', calls)" and "c \<in> set calls"
    and "image_open R w inp = Inr src"
  shows "(img_mode R src = ''RGBA'' \<and> lower tf = ''webp'' \<longrightarrow> sc_image c = src)
       \<and> (img_mode R src = ''RGBA'' \<and> lower tf \<noteq> ''webp'' \<longrightarrow>
            (\<exists>background bands.
               image_new R ''RGB'' (img_size R src) [255, 255, 255] = Inr background
               \<and> img_split R src = Inr bands \<and> 3 < length bands
               \<and> img_paste R background src (bands ! 3) = Inr (sc_image c)))
       \<and> (img_mode R src = ''LA'' \<or> img_mode R src = ''P''
            \<longrightarrow> img_convert R src ''RGB'' = Inr (sc_image c))
       \<and> (img_mode R src \<notin> set [''RGBA'', ''LA'', ''P'', ''RGB'']
            \<longrightarrow> img_convert R src ''RGB'' = Inr (sc_image c))
       \<and> (img_mode R src = ''RGB'' \<longrightarrow> sc_image c = src)"
proof -
  have n: "normalize_mode R src tf = Inr (sc_image c)"
    using assms by (rule convert_image_call_source)
  note cases = normalize_mode_Inr [OF n]
  have "img_mode R src = ''RGBA'' \<and> lower tf \<noteq> ''webp'' \<longrightarrow>
            (\<exists>background bands.
               image_new R ''RGB'' (img_size R src) [255, 255, 255] = Inr background
               \<and> img_split R src = Inr bands \<and> 3 < length bands
               \<and> img_paste R background src (bands ! 3) = Inr (sc_image c))"
  proof
    assume "img_mode R src = ''RGBA'' \<and> lower tf \<noteq> ''webp''"
    with cases have "paste_on_white R src = Inr (sc_image c)" by simp
    then show "\<exists>background bands.
               image_new R ''RGB'' (img_size R src) [255, 255, 255] = Inr background
               \<and> img_split R src = Inr bands \<and> 3 < length bands
               \<and> img_paste R background src (bands ! 3) = Inr (sc_image c)"
      by (rule paste_on_white_Inr)
  qed
  with cases show ?thesis by simp
qed

theorem convert_image_mode_policy_witness:
  "img_mode ref_runtime rgba_png = ''RGBA'' \<and> lower ''avif'' \<noteq> ''webp''
   \<and> (\<exists>background bands.
         image_new ref_runtime ''RGB'' (img_size ref_runtime rgba_png) [255, 255, 255]
           = Inr background
         \<and> img_split ref_runtime rgba_png = Inr bands \<and> 3 < length bands
         \<and> img_paste ref_runtime background rgba_png (bands ! 3)
           = Inr \<lparr>ri_mode = ''RGB'', ri_size = (2, 1), ri_format = None, ri_exif = [],
                  ri_data = [[10, 20, 30], [255, 255, 255]]\<rparr>)"
proof -
  let ?run = "convert_image ref_runtime ''in/rgba.png'' ''out/rgba.png'' ''avif'' 85 False
                world_full_codecs"
  let ?c = "\<lparr>sc_image = \<lparr>ri_mode = ''RGB'', ri_size = (2, 1), ri_format = None, ri_exif = [],
                          ri_data = [[10, 20, 30], [255, 255, 255]]\<rparr>,
             sc_path = ''out/rgba.avif'', sc_format = Some ''AVIF'',
             sc_kwargs = \<lparr>kw_quality = Some 85, kw_optimize = None, kw_method = Some 6,
                           kw_exif = None\<rparr>\<rparr>"
  have calls: "snd (snd ?run) = [?c]"
    by (simp add: eval_simps)
  have run: "?run = (fst ?run, fst (snd ?run), snd (snd ?run))"
    by simp
  have mem: "?c \<in> set (snd (snd ?run))"
    using calls by simp
  have src: "image_open ref_runtime world_full_codecs ''in/rgba.png'' = Inr rgba_png"
    by (simp add: ref_defs)
  have m: "img_mode ref_runtime rgba_png = ''RGBA''"
    by (simp add: ref_defs)
  have l: "lower ''avif'' \<noteq> ''webp''"
    by (simp add: path_defs)
  from convert_image_mode_policy [OF run mem src] m l show ?thesis
    by simp
qed

text \<open>
  Claim C1 as stated fails on the modes LA and P. A grey image with alpha (LA) sent
  to WebP is not encoded as it is: the encoder receives its conversion to RGB, the
  alpha band gone. A palette image (P) sent to AVIF is not composited onto white: the
  encoder receives its plain conversion to RGB, and the compositing of lines 35-37 could
  not have run on it, since it has no fourth band.
\<close>

theorem la_and_palette_are_converted_not_composited:
  "map sc_image (snd (snd (convert_image ref_runtime ''in/la.png'' ''out/la.png'' ''webp'' 85
                             False world_full_codecs)))
     = [\<lparr>ri_mode = ''RGB'', ri_size = (1, 1), ri_format = None, ri_exif = [],
          ri_data = [[90, 90, 90]]\<rparr>]
   \<and> ri_mode la_png = ''LA''
   \<and> map sc_image (snd (snd (convert_image ref_runtime ''in/p.png'' ''out/p.png'' ''avif'' 85
                             False world_full_codecs)))
     = [\<lparr>ri_mode = ''RGB'', ri_size = (1, 1), ri_format = None, ri_exif = [],
          ri_data = [[7, 7, 7]]\<rparr>]
   \<and> paste_on_white ref_runtime p_png
     = Inl (PyException ''IndexError'' ''tuple index out of range'')"
  by (simp add: eval_simps)

subsection \<open>Metadata forwarded by the converter\<close>

lemma convert_kwargs_exif:
  assumes "convert_kwargs R img tf q rm = Inr kw"
  shows "(rm \<longrightarrow> kw_exif kw = None)
       \<and> (\<not> rm \<longrightarrow> (\<exists>x. img_getexif R img = Inr x
              \<and> kw_exif kw = (if x \<noteq> [] \<and> lower tf = ''webp'' then Some x else None)))"
proof (cases rm)
  case True
  with assms show ?thesis
    by (auto simp: convert_kwargs_def Let_def)
next
  case False
  with assms have "try_then (img_getexif R img) (\<lambda>exif_data.
             if exif_data \<noteq> [] \<and> lower tf = ''webp''
             then Inr (\<lparr>kw_quality = Some q, kw_optimize = None, kw_method = Some 6,
                         kw_exif = None\<rparr>\<lparr>kw_exif := Some exif_data\<rparr>)
             else Inr \<lparr>kw_quality = Some q, kw_optimize = None, kw_method = Some 6,
                        kw_exif = None\<rparr>) = Inr kw"
    by (simp add: convert_kwargs_def Let_def)
  then obtain x where x: "img_getexif R img = Inr x"
    and kw: "(if x \<noteq> [] \<and> lower tf = ''webp''
              then Inr (\<lparr>kw_quality = Some q, kw_optimize = None, kw_method = Some 6,
                         kw_exif = None\<rparr>\<lparr>kw_exif := Some x\<rparr>)
              else Inr \<lparr>kw_quality = Some q, kw_optimize = None, kw_method = Some 6,
                        kw_exif = None\<rparr>) = (Inr kw :: py_exception + save_kwargs)"
    unfolding try_then_Inr_iff by blast
  have "kw_exif kw = (if x \<noteq> [] \<and> lower tf = ''webp'' then Some x else None)"
  proof (cases "x \<noteq> [] \<and> lower tf = ''webp''")
    case True
    with kw have "kw = \<lparr>kw_quality = Some q, kw_optimize = None, kw_method = Some 6,
                         kw_exif = None\<rparr>\<lparr>kw_exif := Some x\<rparr>"
      by simp
    with True show ?thesis by simp
  next
    case False
    with kw have "kw = \<lparr>kw_quality = Some q, kw_optimize = None, kw_method = Some 6,
                         kw_exif = None\<rparr>"
      by auto
    with False show ?thesis by auto
  qed
  with x False show ?thesis by simp
qed

text \<open>
  Claim C10, as amended. In \<open>convert_image\<close> the EXIF snapshot is read after the
  colour-mode normalisation, from the image object that is then encoded: with
  \<^verbatim>\<open>remove_metadata\<close> set no EXIF is passed; otherwise \<^verbatim>\<open>getexif()\<close> of the normalised
  image is passed when it is not empty and the target is WebP, and nothing is passed
  otherwise. The normalised image is the source object itself when the source mode is
  RGB, or RGBA with a WebP target. Whether a converted image still carries the EXIF of
  its source is the imaging library's affair: the converter itself drops nothing.
\<close>

theorem exif_read_from_normalised_image:
  assumes "convert_image R inp out tf q rm w = (r, w', calls)" and "c \<in> set calls"
    and "image_open R w inp = Inr src"
  shows "(rm \<longrightarrow> kw_exif (sc_kwargs c) = None)
       \<and> (\<not> rm \<longrightarrow> (\<exists>x. img_getexif R (sc_image c) = Inr x
              \<and> kw_exif (sc_kwargs c)
                  = (if x \<noteq> [] \<and> lower tf = ''webp'' then Some x else None)))
       \<and> (img_mode R src = ''RGB'' \<or> (img_mode R src = ''RGBA'' \<and> lower tf = ''webp'')
            \<longrightarrow> sc_image c = src)"
proof -
  from convert_image_call [OF assms(1,2)] obtain orig
    where "convert_prepare R inp tf q rm w = Inr (orig, sc_image c, sc_kwargs c)" by blast
  then have "convert_kwargs R (sc_image c) tf q rm = Inr (sc_kwargs c)"
    unfolding convert_prepare_Inr by blast
  note kw = convert_kwargs_exif [OF this]
  have "normalize_mode R src tf = Inr (sc_image c)"
    using assms by (rule convert_image_call_source)
  note nm = normalize_mode_Inr [OF this]
  from kw nm show ?thesis by simp
qed

theorem exif_read_from_normalised_image_witness:
  "kw_exif \<lparr>kw_quality = Some 85, kw_optimize = None, kw_method = Some 6,
            kw_exif = Some [(274, ''1'')]\<rparr> = Some [(274, ''1'')]
   \<and> img_getexif ref_runtime rgba_png = Inr [(274, ''1'')]
   \<and> img_mode ref_runtime rgba_png = ''RGBA'' \<and> lower ''WebP'' = ''webp''"
proof -
  let ?run = "convert_image ref_runtime ''in/rgba.png'' ''out/rgba.png'' ''WebP'' 85 False
                world_full_codecs"
  let ?c = "\<lparr>sc_image = rgba_png, sc_path = ''out/rgba.webp'', sc_format = Some ''WEBP'',
             sc_kwargs = \<lparr>kw_quality = Some 85, kw_optimize = None, kw_method = Some 6,
                           kw_exif = Some [(274, ''1'')]\<rparr>\<rparr>"
  have calls: "snd (snd ?run) = [?c]"
    by (simp add: eval_simps)
  have run: "?run = (fst ?run, fst (snd ?run), snd (snd ?run))"
    by simp
  have mem: "?c \<in> set (snd (snd ?run))"
    using calls by simp
  have src: "image_open ref_runtime world_full_codecs ''in/rgba.png'' = Inr rgba_png"
    by (simp add: ref_defs)
  have m: "img_mode ref_runtime rgba_png = ''RGBA''"
    by (simp add: ref_defs)
  have l: "lower ''WebP'' = ''webp''"
    by (simp add: path_defs)
  have "sc_image ?c = rgba_png"
    using exif_read_from_normalised_image [OF run mem src] m l by simp
  then show ?thesis using m l
    by (simp add: ref_defs)
qed

text \<open>
  Claim C10 as stated fails where the library's conversion keeps the metadata, as
  Pillow's does (\<^verbatim>\<open>convert\<close> copies the \<^verbatim>\<open>info\<close> dictionary that \<^verbatim>\<open>getexif\<close> reads):
  a grey JPEG (mode L) with an orientation tag, converted to WebP with
  \<^verbatim>\<open>remove_metadata=False\<close>, is converted to RGB first, and its EXIF is still passed to
  the encoder.
\<close>

theorem exif_forwarded_after_conversion:
  "map (\<lambda>c. kw_exif (sc_kwargs c))
     (snd (snd (convert_image ref_runtime ''in/grey.jpg'' ''out/grey.jpg'' ''webp'' 85 False
                  world_full_codecs))) = [Some [(274, ''6'')]]
   \<and> map (\<lambda>c. ri_mode (sc_image c))
     (snd (snd (convert_image ref_runtime ''in/grey.jpg'' ''out/grey.jpg'' ''webp'' 85 False
                  world_full_codecs))) = [''RGB'']
   \<and> image_open ref_runtime world_full_codecs ''in/grey.jpg'' = Inr grey_jpeg
   \<and> img_mode ref_runtime grey_jpeg = ''L''"
  by (simp add: eval_simps)

subsection \<open>Predicted and written output paths\<close>

lemma rfind_append_absent: "c \<notin> set b \<Longrightarrow> rfind (P @ b) c = rfind P c"
proof -
  assume "c \<notin> set b"
  then have "dropWhile (\<lambda>x. x \<noteq> c) (rev b @ rev P) = dropWhile (\<lambda>x. x \<noteq> c) (rev P)"
    by (intro dropWhile_append2) auto
  then show ?thesis by (simp add: rfind_def)
qed

lemma rfind_append_present: "c \<in> set b \<Longrightarrow> rfind (P @ b) c = int (length P) + rfind b c"
proof -
  assume "c \<in> set b"
  then have "c \<in> set (rev b)" by simp
  then have "dropWhile (\<lambda>x. x \<noteq> c) (rev b @ rev P) = dropWhile (\<lambda>x. x \<noteq> c) (rev b) @ rev P"
    by (rule dropWhile_append1) simp
  then show ?thesis by (simp add: rfind_def)
qed

lemma rfind_ends_with: "P = [] \<or> last P = c \<Longrightarrow> rfind P c = int (length P) - 1"
  by (cases P rule: rev_cases) (auto simp: rfind_def)

lemma rfind_absent: "c \<notin> set b \<Longrightarrow> rfind b c = - 1"
proof -
  assume "c \<notin> set b"
  then have "dropWhile (\<lambda>x. x \<noteq> c) (rev b) = []" by auto
  then show ?thesis by (simp add: rfind_def)
qed

lemma rfind_bounds: "- 1 \<le> rfind s c \<and> rfind s c < int (length s)"
proof -
  have "length (dropWhile (\<lambda>x. x \<noteq> c) (rev s)) \<le> length (rev s)"
    by (rule length_dropWhile_le)
  then show ?thesis by (simp add: rfind_def)
qed

lemma rfind_present: "c \<in> set b \<Longrightarrow> 0 \<le> rfind b c"
proof -
  assume "c \<in> set b"
  then have "dropWhile (\<lambda>x. x \<noteq> c) (rev b) \<noteq> []" by (simp add: dropWhile_eq_Nil_conv)
  then have "0 < length (dropWhile (\<lambda>x. x \<noteq> c) (rev b))" by simp
  then show ?thesis by (simp add: rfind_def)
qed

text \<open>The scan for leading dots sees only the last component.\<close>

lemma leading_dots_only_shift:
  "leading_dots_only (P @ b) (length P + i) (length P + d) = leading_dots_only b i d"
proof (induction b i d rule: leading_dots_only.induct)
  case (1 p i d)
  show ?case
  proof (cases "i < d")
    case True
    have "leading_dots_only (P @ p) (length P + i) (length P + d) =
            (if take 1 (drop i p) \<noteq> ''.'' then False
             else leading_dots_only (P @ p) (length P + (i + 1)) (length P + d))"
      using True by (subst leading_dots_only.simps) (simp add: add.assoc)
    also have "\<dots> = (if take 1 (drop i p) \<noteq> ''.'' then False
                      else leading_dots_only p (i + 1) d)"
      using "1.IH" True by auto
    also have "\<dots> = leading_dots_only p i d"
      using True by (subst (2) leading_dots_only.simps) simp
    finally show ?thesis .
  next
    case False
    then show ?thesis
      by (simp add: leading_dots_only_stop)
  qed
qed

text \<open>
  \<^verbatim>\<open>splitext\<close> of a file name \<open>b\<close> placed in a directory \<open>P\<close> (empty, or ending in the
  separator) splits \<open>b\<close> as it would be split alone.
\<close>

lemma splitext_in_directory:
  assumes nosep: "CHR ''/'' \<notin> set b" and dir: "P = [] \<or> last P = CHR ''/''"
  shows "splitext (P @ b) = (P @ fst (splitext b), snd (splitext b))"
proof (cases "CHR ''.'' \<in> set b")
  case False
  have sep: "rfind (P @ b) CHR ''/'' = int (length P) - 1"
    using nosep dir by (simp add: rfind_append_absent rfind_ends_with)
  have "rfind (P @ b) CHR ''.'' = rfind P CHR ''.''"
    using False by (simp add: rfind_append_absent)
  moreover have "rfind P CHR ''.'' \<le> int (length P) - 1"
    using rfind_bounds [of P "CHR ''.''"] by simp
  ultimately have "\<not> rfind (P @ b) CHR ''.'' > rfind (P @ b) CHR ''/''"
    using sep by simp
  moreover have "\<not> rfind b CHR ''.'' > rfind b CHR ''/''"
    using False nosep by (simp add: rfind_absent)
  ultimately show ?thesis by (simp add: splitext_def Let_def)
next
  case True
  define d where "d = nat (rfind b CHR ''.'')"
  have d: "rfind b CHR ''.'' = int d"
    using rfind_present [OF True] by (simp add: d_def)
  have sep: "rfind (P @ b) CHR ''/'' = int (length P) - 1"
    using nosep dir by (simp add: rfind_append_absent rfind_ends_with)
  have dot: "rfind (P @ b) CHR ''.'' = int (length P + d)"
    using True d by (simp add: rfind_append_present)
  have sepb: "rfind b CHR ''/'' = - 1"
    using nosep by (simp add: rfind_absent)
  have scan: "leading_dots_only (P @ b) (length P) (length P + d) = leading_dots_only b 0 d"
    using leading_dots_only_shift [of P b 0 d] by simp
  have n1: "nat (int (length P) - 1 + 1) = length P" by simp
  have n2: "nat (int (length P + d)) = length P + d" by simp
  have n3: "nat (- 1 + 1 :: int) = 0" by simp
  have n4: "nat (int d) = d" by simp
  have g1: "(int (length P) - 1 < int (length P + d)) = True" by simp
  have g2: "((- 1 :: int) < int d) = True" by simp
  show ?thesis
    unfolding splitext_def Let_def sep dot sepb d n1 n2 n3 n4 g1 g2 scan
    by simp
qed

lemma basename_no_separator: "CHR ''/'' \<notin> set (basename p)"
proof -
  let ?k = "dropWhile (\<lambda>x. x \<noteq> CHR ''/'') (rev p)"
  have "rev p = takeWhile (\<lambda>x. x \<noteq> CHR ''/'') (rev p) @ ?k"
    by simp
  then have "p = rev ?k @ rev (takeWhile (\<lambda>x. x \<noteq> CHR ''/'') (rev p))"
    by (metis rev_append rev_rev_ident)
  then have "drop (length (rev ?k)) p = rev (takeWhile (\<lambda>x. x \<noteq> CHR ''/'') (rev p))"
    by (metis append_eq_conv_conj)
  moreover have "nat (rfind p CHR ''/'' + 1) = length (rev ?k)"
    by (simp add: rfind_def)
  ultimately have "basename p = rev (takeWhile (\<lambda>x. x \<noteq> CHR ''/'') (rev p))"
    by (simp add: basename_def)
  moreover have "CHR ''/'' \<notin> set (takeWhile (\<lambda>x. x \<noteq> CHR ''/'') (rev p))"
    using set_takeWhileD by fastforce
  ultimately show ?thesis by simp
qed

text \<open>\<^verbatim>\<open>os.path.join\<close> with a component that does not start with the separator.\<close>

lemma join_relative: "take 1 b \<noteq> ''/'' \<Longrightarrow> join a b = directory_prefix a @ b"
  by (simp add: join_def directory_prefix_def)

lemma directory_prefix_ends: "directory_prefix a = [] \<or> last (directory_prefix a) = CHR ''/''"
proof (cases a rule: rev_cases)
  case Nil
  then show ?thesis by (simp add: directory_prefix_def)
next
  case (snoc xs x)
  then show ?thesis by (simp add: directory_prefix_def)
qed

lemma no_separator_relative: "CHR ''/'' \<notin> set b \<Longrightarrow> take 1 b \<noteq> ''/''"
  by (cases b) auto

lemma splitext_fst_no_separator:
  assumes "CHR ''/'' \<notin> set b"
  shows "CHR ''/'' \<notin> set (fst (splitext b))"
proof -
  have "fst (splitext b) = b \<or> (\<exists>n. fst (splitext b) = take n b)"
    by (auto simp: splitext_def Let_def)
  with assms show ?thesis
    by (auto dest: in_set_takeD)
qed

lemma derived_path_commutes:
  assumes ext: "take 1 ext \<noteq> ''/''" and extsep: "CHR ''/'' \<notin> set ext"
  shows "fst (splitext (join folder (basename inp))) @ ext
           = join folder (fst (splitext (basename inp)) @ ext)"
proof -
  let ?b = "basename inp"
  have nb: "CHR ''/'' \<notin> set ?b" by (rule basename_no_separator)
  have "join folder ?b = directory_prefix folder @ ?b"
    by (rule join_relative [OF no_separator_relative [OF nb]])
  then have l: "fst (splitext (join folder ?b)) = directory_prefix folder @ fst (splitext ?b)"
    using splitext_in_directory [OF nb directory_prefix_ends [of folder]] by simp
  have "CHR ''/'' \<notin> set (fst (splitext ?b) @ ext)"
    using splitext_fst_no_separator [OF nb] extsep by simp
  then have "join folder (fst (splitext ?b) @ ext)
               = directory_prefix folder @ fst (splitext ?b) @ ext"
    by (rule join_relative [OF no_separator_relative])
  with l show ?thesis by simp
qed

lemma check_conflicts_outputs:
  "cf \<in> set (check_conflicts R w inps folder fmt) \<Longrightarrow>
     cf_input cf \<in> set inps \<and> cf_output cf = predicted_output_path (cf_input cf) folder fmt"
  by (induction inps) (auto simp: Let_def split: if_splits)

text \<open>
  Claim C3, as amended. \<open>check_conflicts\<close> derives its prediction from the input
  path and the output directory; \<open>convert_image\<close> derives the path it writes from the
  output path it is given, by replacing the extension, and \<open>compress_image\<close> writes to
  the output path it is given. The two agree when the request's output path is the
  output directory joined with the base name of the input and the format names
  correspond: \<open>convert_image\<close> then calls \<^verbatim>\<open>img.save\<close> on the path predicted for
  "WebP" when its target format is WebP in any letter case, and on the one predicted
  for "AVIF" otherwise (the target is then AVIF); \<open>compress_image\<close> writes to the
  path predicted for "Keep Original" exactly when its output path has that shape.
  Every record of \<open>check_conflicts\<close> carries the predicted path of its input. (Paths
  are POSIX paths.)
\<close>

theorem written_path_and_predicted_path:
  "(\<forall>r w' calls c.
      convert_image R inp (join folder (basename inp)) tf q rm w = (r, w', calls)
      \<and> c \<in> set calls
      \<longrightarrow> sc_path c = predicted_output_path inp folder
                         (if lower tf = ''webp'' then ''WebP'' else ''AVIF''))
   \<and> (\<forall>out r w' calls c.
      convert_image R inp out tf q rm w = (r, w', calls) \<and> c \<in> set calls
      \<longrightarrow> sc_path c = fst (splitext out)
                         @ (if lower tf = ''webp'' then ''.webp'' else ''.avif''))
   \<and> (\<forall>out r w' calls c.
      compress_image R inp out q rm w = (r, w', calls) \<and> c \<in> set calls
      \<longrightarrow> sc_path c = out
          \<and> (sc_path c = predicted_output_path inp folder ''Keep Original''
               \<longleftrightarrow> out = join folder (basename inp)))
   \<and> (\<forall>cf \<in> set (check_conflicts R w inps folder fmt).
        cf_output cf = predicted_output_path (cf_input cf) folder fmt)"
proof -
  have a: "\<forall>r w' calls c.
      convert_image R inp (join folder (basename inp)) tf q rm w = (r, w', calls)
      \<and> c \<in> set calls
      \<longrightarrow> sc_path c = predicted_output_path inp folder
                         (if lower tf = ''webp'' then ''WebP'' else ''AVIF'')"
  proof (intro allI impI)
    fix r w' calls c
    assume h: "convert_image R inp (join folder (basename inp)) tf q rm w = (r, w', calls)
               \<and> c \<in> set calls"
    then have p: "sc_path c = fst (splitext (join folder (basename inp)))
                     @ (if lower tf = ''webp'' then ''.webp'' else ''.avif'')"
      using convert_image_call [of R inp "join folder (basename inp)" tf q rm w r w' calls c]
      by blast
    show "sc_path c = predicted_output_path inp folder
                        (if lower tf = ''webp'' then ''WebP'' else ''AVIF'')"
    proof (cases "lower tf = ''webp''")
      case True
      have "fst (splitext (join folder (basename inp))) @ ''.webp''
              = join folder (fst (splitext (basename inp)) @ ''.webp'')"
        by (rule derived_path_commutes) simp_all
      with p True show ?thesis
        by (simp add: predicted_output_path_def output_filename_def)
    next
      case False
      have "fst (splitext (join folder (basename inp))) @ ''.avif''
              = join folder (fst (splitext (basename inp)) @ ''.avif'')"
        by (rule derived_path_commutes) simp_all
      with p False show ?thesis
        by (simp add: predicted_output_path_def output_filename_def)
    qed
  qed
  have b: "\<forall>out r w' calls c.
      convert_image R inp out tf q rm w = (r, w', calls) \<and> c \<in> set calls
      \<longrightarrow> sc_path c = fst (splitext out)
                         @ (if lower tf = ''webp'' then ''.webp'' else ''.avif'')"
  proof (intro allI impI)
    fix out r w' calls c
    assume "convert_image R inp out tf q rm w = (r, w', calls) \<and> c \<in> set calls"
    then show "sc_path c = fst (splitext out)
                             @ (if lower tf = ''webp'' then ''.webp'' else ''.avif'')"
      using convert_image_call [of R inp out tf q rm w r w' calls c] by blast
  qed
  have c: "\<forall>out r w' calls c.
      compress_image R inp out q rm w = (r, w', calls) \<and> c \<in> set calls
      \<longrightarrow> sc_path c = out
          \<and> (sc_path c = predicted_output_path inp folder ''Keep Original''
               \<longleftrightarrow> out = join folder (basename inp))"
  proof (intro allI impI)
    fix out r w' calls c
    assume h: "compress_image R inp out q rm w = (r, w', calls) \<and> c \<in> set calls"
    then obtain orig where "compress_prepare R inp out q rm w = Inr (orig, c)"
      using compress_image_call [of R inp out q rm w r w' calls c] by blast
    then have "sc_path c = out"
      by (simp add: compress_prepare_call)
    then show "sc_path c = out
            \<and> (sc_path c = predicted_output_path inp folder ''Keep Original''
                 \<longleftrightarrow> out = join folder (basename inp))"
      by (auto simp: predicted_output_path_def output_filename_def)
  qed
  have d: "\<forall>cf \<in> set (check_conflicts R w inps folder fmt).
        cf_output cf = predicted_output_path (cf_input cf) folder fmt"
    by (simp add: check_conflicts_outputs)
  from a b c d show ?thesis by (intro conjI)
qed

theorem written_path_and_predicted_path_witness:
  "map sc_path (snd (snd (convert_image ref_runtime ''in/rgba.png''
                             (join ''out.d'' (basename ''in/rgba.png'')) ''WebP'' 85 False
                             world_full_codecs))) = [''out.d/rgba.webp'']
   \<and> predicted_output_path ''in/rgba.png'' ''out.d'' ''WebP'' = ''out.d/rgba.webp''
   \<and> map sc_path (snd (snd (compress_image ref_runtime ''in/scan.tif''
                             (join ''out'' (basename ''in/scan.tif'')) 85 True
                             world_full_codecs))) = [''out/scan.tif'']
   \<and> predicted_output_path ''in/scan.tif'' ''out'' ''Keep Original'' = ''out/scan.tif''
   \<and> map cf_output (check_conflicts ref_runtime world_full_codecs [''in/grey.jpg''] ''out''
                       ''Keep Original'') = [''out/grey.jpg'']"
proof -
  let ?run = "convert_image ref_runtime ''in/rgba.png''
                (join ''out.d'' (basename ''in/rgba.png'')) ''WebP'' 85 False
                world_full_codecs"
  let ?c = "\<lparr>sc_image = rgba_png, sc_path = ''out.d/rgba.webp'', sc_format = Some ''WEBP'',
             sc_kwargs = \<lparr>kw_quality = Some 85, kw_optimize = None, kw_method = Some 6,
                           kw_exif = Some [(274, ''1'')]\<rparr>\<rparr>"
  have calls: "snd (snd ?run) = [?c]"
    by (simp add: eval_simps)
  have run: "?run = (fst ?run, fst (snd ?run), snd (snd ?run))"
    by simp
  have mem: "?c \<in> set (snd (snd ?run))"
    using calls by simp
  have l: "lower ''WebP'' = ''webp''"
    by (simp add: path_defs)
  have "sc_path ?c = predicted_output_path ''in/rgba.png'' ''out.d''
                       (if lower ''WebP'' = ''webp'' then ''WebP'' else ''AVIF'')"
    using written_path_and_predicted_path
            [of ref_runtime "''in/rgba.png''" "''out.d''" "''WebP''" 85 False world_full_codecs,
             THEN conjunct1, rule_format, OF conjI [OF run mem]]
    by simp
  then have pred: "predicted_output_path ''in/rgba.png'' ''out.d'' ''WebP'' = ''out.d/rgba.webp''"
    using l by simp
  let ?crun = "compress_image ref_runtime ''in/scan.tif''
                 (join ''out'' (basename ''in/scan.tif'')) 85 True world_full_codecs"
  have clen: "length (snd (snd ?crun)) = 1"
    by (simp add: eval_simps)
  then obtain d where d: "snd (snd ?crun) = [d]"
    by (cases "snd (snd ?crun)") auto
  have crun: "?crun = (fst ?crun, fst (snd ?crun), snd (snd ?crun))"
    by simp
  have cmem: "d \<in> set (snd (snd ?crun))"
    using d by simp
  have j: "join ''out'' (basename ''in/scan.tif'') = ''out/scan.tif''"
    by (simp add: path_defs)
  note t = written_path_and_predicted_path
             [of ref_runtime "''in/scan.tif''" "''out''" _ 85 True world_full_codecs,
              THEN conjunct2, THEN conjunct2, THEN conjunct1, rule_format,
              OF conjI [OF crun cmem]]
  from t have dp: "sc_path d = join ''out'' (basename ''in/scan.tif'')"
    by blast
  from t have "sc_path d = predicted_output_path ''in/scan.tif'' ''out'' ''Keep Original''"
    by blast
  with dp j have cpred: "predicted_output_path ''in/scan.tif'' ''out'' ''Keep Original''
                           = ''out/scan.tif''"
    by simp
  have "map cf_output (check_conflicts ref_runtime world_full_codecs [''in/grey.jpg'']
                         ''out'' ''Keep Original'') = [''out/grey.jpg'']"
    by (simp add: predicted_output_path_def output_filename_def existing_info_def eval_simps)
  then show ?thesis using calls pred d dp j cpred by simp
qed

text \<open>
  Claim C3 as stated fails for other requests. The conflict checker knows the format
  names "Keep Original", "WebP" and "AVIF" only, and the converter any letter case of
  "webp" and "avif": for the request with format \<^verbatim>\<open>webp\<close> the checker predicts the
  unchanged file name while the converter writes the \<^verbatim>\<open>.webp\<close> file. And the converter
  follows the output path it is given: with an output path of another name than the
  input's, it writes beside the predicted path.
\<close>

theorem predicted_path_differs_from_written_path:
  "predicted_output_path ''in/rgba.png'' ''out'' ''webp'' = ''out/rgba.png''
   \<and> map sc_path (snd (snd (convert_image ref_runtime ''in/rgba.png''
                             (join ''out'' (basename ''in/rgba.png'')) ''webp'' 85 False
                             world_full_codecs))) = [''out/rgba.webp'']
   \<and> predicted_output_path ''in/rgba.png'' ''out'' ''WebP'' = ''out/rgba.webp''
   \<and> map sc_path (snd (snd (convert_image ref_runtime ''in/rgba.png'' ''out/renamed.png''
                             ''WebP'' 85 False world_full_codecs))) = [''out/renamed.webp'']"
  by (simp add: predicted_output_path_def output_filename_def eval_simps)

subsection \<open>Size reduction\<close>

lemma binary_exponent_bounds:
  "0 < x \<Longrightarrow> 2 powi binary_exponent x \<le> x \<and> x < 2 powi (binary_exponent x + 1)"
proof (induction x rule: binary_exponent.induct)
  case (1 x)
  show ?case
  proof (cases "2 \<le> x")
    case True
    then have e: "binary_exponent x = binary_exponent (x / 2) + 1"
      by (subst binary_exponent.simps) simp
    have "0 < x / 2" using True by simp
    with "1.IH"(1) True "1.prems"
    have "2 powi binary_exponent (x / 2) \<le> x / 2
          \<and> x / 2 < 2 powi (binary_exponent (x / 2) + 1)"
      by simp
    then show ?thesis
      unfolding e by (simp add: power_int_add field_simps)
  next
    case False
    show ?thesis
    proof (cases "x < 1")
      case True
      then have e: "binary_exponent x = binary_exponent (x * 2) - 1"
        using False "1.prems" by (subst binary_exponent.simps) simp
      have "0 < x * 2" using "1.prems" by simp
      with "1.IH"(2) True False "1.prems"
      have "2 powi binary_exponent (x * 2) \<le> x * 2
            \<and> x * 2 < 2 powi (binary_exponent (x * 2) + 1)"
        by simp
      then show ?thesis
        unfolding e by (simp add: power_int_add power_int_diff field_simps)
    next
      case f: False
      then have e: "binary_exponent x = 0"
        using False "1.prems" by (subst binary_exponent.simps) simp
      show ?thesis
        unfolding e using f False by simp
    qed
  qed
qed

lemma round_half_even_upper: "of_int (round_half_even y) \<le> y + 1"
proof -
  have a: "of_int \<lfloor>y\<rfloor> \<le> y + 1"
    using of_int_floor_le [of y] by linarith
  have b: "of_int (\<lfloor>y\<rfloor> + 1) \<le> y + 1"
    by simp
  show ?thesis
    unfolding round_half_even_def Let_def using a b by presburger
qed

text \<open>Rounding keeps the sign of a negative number: its magnitude is at least \<open>2\<^sup>5\<^sup>2\<close> units.\<close>

lemma round_to_double_negative:
  assumes "x < 0"
  shows "round_to_double x < 0"
proof -
  let ?e = "binary_exponent \<bar>x\<bar>"
  let ?ulp = "(2 :: rat) powi (?e - 52)"
  have pos: "0 < ?ulp" by (simp add: zero_less_power_int)
  have "2 powi ?e \<le> \<bar>x\<bar>"
    using binary_exponent_bounds [of "\<bar>x\<bar>"] assms by simp
  moreover have "(2 :: rat) powi ?e = 2 ^ 52 * ?ulp"
    by (simp add: power_int_diff)
  ultimately have h: "2 ^ 52 * ?ulp \<le> - x"
    using assms by simp
  have "x / ?ulp \<le> - (2 ^ 52)"
    using h pos by (simp add: pos_divide_le_eq)
  then have "x / ?ulp + 1 < 0" by simp
  then have "(of_int (round_half_even (x / ?ulp)) :: rat) < 0"
    using round_half_even_upper [of "x / ?ulp"] by linarith
  then have "of_int (round_half_even (x / ?ulp)) * ?ulp < 0"
    using pos by (simp add: mult_neg_pos)
  then show ?thesis
    using assms by (simp add: round_to_double_def Let_def)
qed

lemma size_reduction_pct_Inr:
  "size_reduction_pct orig new = Inr red \<longleftrightarrow>
     orig \<noteq> 0
     \<and> red = round_to_double
               (round_to_double ((of_nat orig - of_nat new) / of_nat orig) * 100)"
  by (auto simp: size_reduction_pct_def py_true_divide_def py_float_mul_def try_then_def)

text \<open>
  The rounding is visible in the value: for a file of 32000 bytes compressed to 112,
  the exact percentage is 1993/20, and the float that Python computes is another number.
\<close>

lemma size_reduction_pct_rounds:
  "size_reduction_pct 32000 112 = Inr (3506122678652109 / 35184372088832)"
  by code_simp

lemma compress_finish_success:
  assumes "compress_finish R w' orig out = Inr (ok, msg, red)"
  shows "\<exists>new. getsize R w' out = Inr new \<and> size_reduction_pct orig new = Inr red"
proof -
  from assms obtain new where n: "getsize R w' out = Inr new"
    and r: "try_then (size_reduction_pct orig new) (\<lambda>size_reduction.
              Inr (True, compress_message R orig new size_reduction, size_reduction))
            = Inr (ok, msg, red)"
    unfolding compress_finish_def try_then_Inr_iff by blast
  from r obtain red' where "size_reduction_pct orig new = Inr red'" and "red' = red"
    unfolding try_then_Inr_iff by auto
  with n show ?thesis by auto
qed

lemma convert_finish_success:
  assumes "convert_finish R w' orig out tf = Inr (ok, msg, red)"
  shows "\<exists>new. getsize R w' out = Inr new \<and> size_reduction_pct orig new = Inr red"
proof -
  from assms obtain new where n: "getsize R w' out = Inr new"
    and r: "try_then (size_reduction_pct orig new) (\<lambda>size_reduction.
              Inr (True, convert_message R tf orig new size_reduction, size_reduction))
            = Inr (ok, msg, red)"
    unfolding convert_finish_def try_then_Inr_iff by blast
  from r obtain red' where "size_reduction_pct orig new = Inr red'" and "red' = red"
    unfolding try_then_Inr_iff by auto
  with n show ?thesis by auto
qed

lemma compress_image_success:
  assumes "compress_image R inp out q rm w = ((True, msg, red), w', calls)"
  shows "\<exists>orig c. compress_prepare R inp out q rm w = Inr (orig, c) \<and> calls = [c]
           \<and> img_save R c w = (None, w')
           \<and> compress_finish R w' orig out = Inr (True, msg, red)"
  using assms
  by (auto simp: compress_image_def error_result_def
           split: sum.splits prod.splits option.splits)

lemma convert_image_success:
  assumes "convert_image R inp out tf q rm w = ((True, msg, red), w', calls)"
  shows "\<exists>orig c. convert_prepare R inp tf q rm w = Inr (orig, sc_image c, sc_kwargs c)
           \<and> calls = [c] \<and> img_save R c w = (None, w')
           \<and> convert_finish R w' orig (sc_path c) tf = Inr (True, msg, red)"
  using assms
  by (auto simp: convert_image_def error_result_def Let_def
           split: sum.splits prod.splits option.splits if_splits)

lemma reduction_negative_when_grown:
  assumes "orig \<noteq> 0" and "orig < new"
  shows "round_to_double
           (round_to_double ((of_nat orig - of_nat new) / of_nat orig) * 100) < 0"
proof -
  have "(of_nat orig :: rat) < of_nat new" using assms by simp
  then have "(of_nat orig - of_nat new :: rat) < 0" by simp
  moreover have "(0 :: rat) < of_nat orig" using assms by simp
  ultimately have "(of_nat orig - of_nat new) / (of_nat orig :: rat) < 0"
    by (simp add: divide_neg_pos)
  then have "round_to_double ((of_nat orig - of_nat new) / of_nat orig) < 0"
    by (rule round_to_double_negative)
  then have "round_to_double ((of_nat orig - of_nat new) / of_nat orig) * 100 < 0"
    by (rule mult_neg_pos) simp
  then show ?thesis
    by (rule round_to_double_negative)
qed

text \<open>
  Claim C4. Whenever \<open>compress_image\<close> or \<open>convert_image\<close> returns success, the
  reduction it returns is \<open>(original_size - output_size) / original_size * 100\<close> as
  Python evaluates it, the quotient and the product each rounded to a float, where the
  original size is \<^verbatim>\<open>os.path.getsize\<close> of the input path before the save and the output
  size is \<^verbatim>\<open>os.path.getsize\<close> of the written path after it; when the output is larger
  than the input the value is negative, and it is returned as it is.
\<close>

theorem reduction_is_computed_from_file_sizes:
  "(\<forall>msg red w' calls.
      compress_image R inp out q rm w = ((True, msg, red), w', calls)
      \<longrightarrow> (\<exists>orig new. getsize R w inp = Inr orig \<and> getsize R w' out = Inr new \<and> orig \<noteq> 0
             \<and> red = round_to_double
                       (round_to_double ((of_nat orig - of_nat new) / of_nat orig) * 100)
             \<and> (orig < new \<longrightarrow> red < 0)))
   \<and> (\<forall>msg red w' calls.
      convert_image R inp out tf q rm w = ((True, msg, red), w', calls)
      \<longrightarrow> (\<exists>orig new c. calls = [c] \<and> getsize R w inp = Inr orig
             \<and> getsize R w' (sc_path c) = Inr new \<and> orig \<noteq> 0
             \<and> red = round_to_double
                       (round_to_double ((of_nat orig - of_nat new) / of_nat orig) * 100)
             \<and> (orig < new \<longrightarrow> red < 0)))"
proof (intro conjI allI impI)
  fix msg red w' calls
  assume "compress_image R inp out q rm w = ((True, msg, red), w', calls)"
  from compress_image_success [OF this] obtain orig c
    where p: "compress_prepare R inp out q rm w = Inr (orig, c)"
      and f: "compress_finish R w' orig out = Inr (True, msg, red)"
    by blast
  from compress_prepare_call [OF p] have o: "getsize R w inp = Inr orig" by simp
  from compress_finish_success [OF f] obtain new
    where n: "getsize R w' out = Inr new" and s: "size_reduction_pct orig new = Inr red"
    by blast
  from s have z: "orig \<noteq> 0"
    and r: "red = round_to_double
                    (round_to_double ((of_nat orig - of_nat new) / of_nat orig) * 100)"
    unfolding size_reduction_pct_Inr by simp_all
  have "orig < new \<longrightarrow> red < 0"
    using reduction_negative_when_grown [OF z] r by simp
  with o n z r
  show "\<exists>orig new. getsize R w inp = Inr orig \<and> getsize R w' out = Inr new \<and> orig \<noteq> 0
          \<and> red = round_to_double
                    (round_to_double ((of_nat orig - of_nat new) / of_nat orig) * 100)
          \<and> (orig < new \<longrightarrow> red < 0)"
    by blast
next
  fix msg red w' calls
  assume "convert_image R inp out tf q rm w = ((True, msg, red), w', calls)"
  from convert_image_success [OF this] obtain orig c
    where p: "convert_prepare R inp tf q rm w = Inr (orig, sc_image c, sc_kwargs c)"
      and c: "calls = [c]"
      and f: "convert_finish R w' orig (sc_path c) tf = Inr (True, msg, red)"
    by blast
  from p have o: "getsize R w inp = Inr orig"
    unfolding convert_prepare_Inr by blast
  from convert_finish_success [OF f] obtain new
    where n: "getsize R w' (sc_path c) = Inr new"
      and s: "size_reduction_pct orig new = Inr red"
    by blast
  from s have z: "orig \<noteq> 0"
    and r: "red = round_to_double
                    (round_to_double ((of_nat orig - of_nat new) / of_nat orig) * 100)"
    unfolding size_reduction_pct_Inr by simp_all
  have "orig < new \<longrightarrow> red < 0"
    using reduction_negative_when_grown [OF z] r by simp
  with c o n z r
  show "\<exists>orig new c. calls = [c] \<and> getsize R w inp = Inr orig
          \<and> getsize R w' (sc_path c) = Inr new \<and> orig \<noteq> 0
          \<and> red = round_to_double
                    (round_to_double ((of_nat orig - of_nat new) / of_nat orig) * 100)
          \<and> (orig < new \<longrightarrow> red < 0)"
    by blast
qed

lemma rounded_percentages:
  "round_to_double (round_to_double ((of_nat 80 - of_nat 88) / of_nat 80) * 100) = - 10"
  "round_to_double (round_to_double ((of_nat 400 - of_nat 85) / of_nat 400) * 100) = 315 / 4"
  by code_simp+

theorem reduction_is_computed_from_file_sizes_witness:
  "fst (fst (compress_image ref_runtime ''in/rgba.png'' ''out/rgba.png'' 100 False
               world_full_codecs)) = True
   \<and> getsize ref_runtime world_full_codecs ''in/rgba.png'' = Inr 80
   \<and> getsize ref_runtime
        (fst (snd (compress_image ref_runtime ''in/rgba.png'' ''out/rgba.png'' 100 False
                     world_full_codecs))) ''out/rgba.png'' = Inr 88
   \<and> snd (snd (fst (compress_image ref_runtime ''in/rgba.png'' ''out/rgba.png'' 100 False
                      world_full_codecs))) = - 10
   \<and> fst (fst (convert_image ref_runtime ''in/grey.jpg'' ''out/grey.jpg'' ''webp'' 85 False
               world_full_codecs)) = True
   \<and> getsize ref_runtime world_full_codecs ''in/grey.jpg'' = Inr 400
   \<and> getsize ref_runtime
        (fst (snd (convert_image ref_runtime ''in/grey.jpg'' ''out/grey.jpg'' ''webp'' 85 False
                     world_full_codecs))) ''out/grey.webp'' = Inr 85
   \<and> snd (snd (fst (convert_image ref_runtime ''in/grey.jpg'' ''out/grey.jpg'' ''webp'' 85 False
                      world_full_codecs))) = 315 / 4"
proof -
  let ?run = "compress_image ref_runtime ''in/rgba.png'' ''out/rgba.png'' 100 False
                world_full_codecs"
  have ok: "fst (fst ?run) = True"
    by (simp add: eval_simps)
  have o: "getsize ref_runtime world_full_codecs ''in/rgba.png'' = Inr 80"
    by (simp add: eval_simps)
  have n: "getsize ref_runtime (fst (snd ?run)) ''out/rgba.png'' = Inr 88"
    by (simp add: eval_simps)
  have run: "?run = ((True, fst (snd (fst ?run)), snd (snd (fst ?run))),
                     fst (snd ?run), snd (snd ?run))"
    using ok by (simp add: prod_eq_iff)
  from reduction_is_computed_from_file_sizes
         [of ref_runtime "''in/rgba.png''" "''out/rgba.png''" 100 False world_full_codecs,
          THEN conjunct1, rule_format, OF run]
  obtain orig new where "getsize ref_runtime world_full_codecs ''in/rgba.png'' = Inr orig"
    and "getsize ref_runtime (fst (snd ?run)) ''out/rgba.png'' = Inr new"
    and r: "snd (snd (fst ?run))
              = round_to_double
                  (round_to_double ((of_nat orig - of_nat new) / of_nat orig) * 100)"
    by blast
  with o n have "orig = 80" and "new = 88" by simp_all
  with r have a: "snd (snd (fst ?run)) = - 10"
    by (simp only: rounded_percentages)
  let ?cv = "convert_image ref_runtime ''in/grey.jpg'' ''out/grey.jpg'' ''webp'' 85 False
               world_full_codecs"
  have cok: "fst (fst ?cv) = True"
    by (simp add: eval_simps)
  have co: "getsize ref_runtime world_full_codecs ''in/grey.jpg'' = Inr 400"
    by (simp add: eval_simps)
  have cn: "getsize ref_runtime (fst (snd ?cv)) ''out/grey.webp'' = Inr 85"
    by (simp add: eval_simps)
  have cp: "map sc_path (snd (snd ?cv)) = [''out/grey.webp'']"
    by (simp add: eval_simps)
  have crun: "?cv = ((True, fst (snd (fst ?cv)), snd (snd (fst ?cv))),
                     fst (snd ?cv), snd (snd ?cv))"
    using cok by (simp add: prod_eq_iff)
  from reduction_is_computed_from_file_sizes
         [of ref_runtime "''in/grey.jpg''" "''out/grey.jpg''" 85 False world_full_codecs
             "''webp''",
          THEN conjunct2, rule_format, OF crun]
  obtain corig cnew c where c: "snd (snd ?cv) = [c]"
    and "getsize ref_runtime world_full_codecs ''in/grey.jpg'' = Inr corig"
    and cs: "getsize ref_runtime (fst (snd ?cv)) (sc_path c) = Inr cnew"
    and cr: "snd (snd (fst ?cv))
              = round_to_double
                  (round_to_double ((of_nat corig - of_nat cnew) / of_nat corig) * 100)"
    by blast
  with co have "corig = 400" by simp
  moreover from c cp have "sc_path c = ''out/grey.webp''" by simp
  with cs cn have "cnew = 85" by simp
  ultimately have b: "snd (snd (fst ?cv)) = 315 / 4"
    using cr by (simp only: rounded_percentages)
  from ok o n a cok co cn b show ?thesis
    by (intro conjI)
qed

subsection \<open>Failures of the AVIF encoder\<close>

text \<open>
  Claim C9. In \<open>convert_image\<close> with target format AVIF, an exception raised by the
  encoder whose message contains "avif" or "cannot write mode", in any letter case, is
  reported as the plug-in message, whatever its cause; an exception whose message
  contains neither is reported as "Error: " followed by the message.
\<close>

theorem avif_exception_is_classified_by_message:
  assumes "convert_prepare R inp tf q rm w = Inr (orig, img, kw)"
    and "lower tf = ''avif''"
    and "img_save R \<lparr>sc_image = img, sc_path = fst (splitext out) @ ''.avif'',
                     sc_format = Some ''AVIF'', sc_kwargs = kw\<rparr> w = (Some e, w')"
  shows "fst (convert_image R inp out tf q rm w) =
           (if py_in ''cannot write mode'' (lower (exc_str e)) \<or> py_in ''avif'' (lower (exc_str e))
            then (False, ''AVIF plugin not installed. Install with: pip install pillow-avif-plugin'', 0)
            else (False, ''Error: '' @ exc_str e, 0))"
  using assms
  by (simp add: convert_image_def Let_def looks_like_missing_plugin_def avif_plugin_message_def
        error_result_def)

theorem avif_exception_is_classified_by_message_witness:
  "lower ''avif'' = ''avif''
   \<and> img_save ref_runtime
        \<lparr>sc_image = \<lparr>ri_mode = ''RGB'', ri_size = (1, 1), ri_format = None, ri_exif = [],
                      ri_data = [[7, 7, 7]]\<rparr>,
         sc_path = fst (splitext ''out/p.png'') @ ''.avif'', sc_format = Some ''AVIF'',
         sc_kwargs = \<lparr>kw_quality = Some 85, kw_optimize = None, kw_method = Some 6,
                       kw_exif = None\<rparr>\<rparr>
        world_disk_full
      = (Some (PyException ''OSError'' ''[Errno 28] No space left on device''), world_disk_full)
   \<and> fst (convert_image ref_runtime ''in/p.png'' ''out/p.png'' ''avif'' 85 False world_disk_full)
      = (False, ''Error: [Errno 28] No space left on device'', 0)"
proof -
  let ?img = "\<lparr>ri_mode = ''RGB'', ri_size = (1, 1), ri_format = None, ri_exif = [],
               ri_data = [[7, 7, 7]]\<rparr>"
  let ?kw = "\<lparr>kw_quality = Some 85, kw_optimize = None, kw_method = Some 6, kw_exif = None\<rparr>"
  have p: "convert_prepare ref_runtime ''in/p.png'' ''avif'' 85 False world_disk_full
             = Inr (68, ?img, ?kw)"
    by (simp add: eval_simps)
  have l: "lower ''avif'' = ''avif''"
    by (simp add: path_defs)
  have s: "img_save ref_runtime
             \<lparr>sc_image = ?img, sc_path = fst (splitext ''out/p.png'') @ ''.avif'',
              sc_format = Some ''AVIF'', sc_kwargs = ?kw\<rparr> world_disk_full
           = (Some (PyException ''OSError'' ''[Errno 28] No space left on device''),
              world_disk_full)"
    by (simp add: eval_simps)
  have "fst (convert_image ref_runtime ''in/p.png'' ''out/p.png'' ''avif'' 85 False
               world_disk_full)
          = (False, ''Error: [Errno 28] No space left on device'', 0)"
    using avif_exception_is_classified_by_message [OF p l s]
    by (simp add: path_defs)
  with l s show ?thesis by simp
qed

lemma missing_encoder_exception_is_recognised:
  "looks_like_missing_plugin (PyException ''KeyError'' (quoted ''AVIF''))"
  by (simp add: looks_like_missing_plugin_def quoted_def path_defs)

text \<open>
  Claim C5, as amended. Where the AVIF encoder is missing, every \<open>convert_image\<close>
  call with target format AVIF returns \<open>success = False\<close> as a result tuple (no
  exception leaves the function: it is total) and leaves the file system as it was.
  When the source could be opened and prepared, so that the encoder was reached, the
  message is the plug-in message, which no generic result carries: a generic message
  starts with "Error: ". When the source itself could not be prepared, the result is
  the generic one for that earlier failure.
\<close>

theorem missing_avif_encoder_is_reported:
  assumes "avif_encoder_missing R w" and "lower tf = ''avif''"
  shows "fst (fst (convert_image R inp out tf q rm w)) = False
       \<and> fst (snd (convert_image R inp out tf q rm w)) = w
       \<and> (\<forall>orig img kw. convert_prepare R inp tf q rm w = Inr (orig, img, kw)
            \<longrightarrow> fst (convert_image R inp out tf q rm w)
                = (False, ''AVIF plugin not installed. Install with: pip install pillow-avif-plugin'', 0))
       \<and> (\<forall>e. convert_prepare R inp tf q rm w = Inl e
            \<longrightarrow> fst (convert_image R inp out tf q rm w) = (False, ''Error: '' @ exc_str e, 0))
       \<and> (\<forall>s. ''AVIF plugin not installed. Install with: pip install pillow-avif-plugin''
              \<noteq> ''Error: '' @ s)"
proof (cases "convert_prepare R inp tf q rm w")
  case (Inl e)
  then show ?thesis
    by (simp add: convert_image_def error_result_def)
next
  case (Inr t)
  obtain orig img kw where t: "t = (orig, img, kw)"
    by (cases t) auto
  let ?call = "\<lparr>sc_image = img, sc_path = fst (splitext out) @ ''.avif'',
                 sc_format = Some ''AVIF'', sc_kwargs = kw\<rparr>"
  have "img_save R ?call w = (Some (PyException ''KeyError'' (quoted ''AVIF'')), w)"
    using assms(1) by (simp add: avif_encoder_missing_def)
  then have "convert_image R inp out tf q rm w
               = ((False, avif_plugin_message, 0), w, [?call])"
    using Inr t assms(2) missing_encoder_exception_is_recognised
    by (simp add: convert_image_def Let_def)
  then show ?thesis
    using Inr t by (simp add: avif_plugin_message_def)
qed

theorem missing_avif_encoder_is_reported_witness:
  "avif_encoder_missing ref_runtime world_no_avif \<and> lower ''AVIF'' = ''avif''
   \<and> convert_image ref_runtime ''in/rgba.png'' ''out/rgba.png'' ''AVIF'' 85 False world_no_avif
      = ((False, ''AVIF plugin not installed. Install with: pip install pillow-avif-plugin'', 0),
         world_no_avif,
         [\<lparr>sc_image = \<lparr>ri_mode = ''RGB'', ri_size = (2, 1), ri_format = None, ri_exif = [],
                        ri_data = [[10, 20, 30], [255, 255, 255]]\<rparr>,
           sc_path = ''out/rgba.avif'', sc_format = Some ''AVIF'',
           sc_kwargs = \<lparr>kw_quality = Some 85, kw_optimize = None, kw_method = Some 6,
                         kw_exif = None\<rparr>\<rparr>])"
proof -
  let ?run = "convert_image ref_runtime ''in/rgba.png'' ''out/rgba.png'' ''AVIF'' 85 False
                world_no_avif"
  let ?img = "\<lparr>ri_mode = ''RGB'', ri_size = (2, 1), ri_format = None, ri_exif = [],
               ri_data = [[10, 20, 30], [255, 255, 255]]\<rparr>"
  let ?kw = "\<lparr>kw_quality = Some 85, kw_optimize = None, kw_method = Some 6, kw_exif = None\<rparr>"
  have m: "avif_encoder_missing ref_runtime world_no_avif"
    by (simp add: avif_encoder_missing_def ref_runtime_def ref_save_def world_no_avif_def)
  have l: "lower ''AVIF'' = ''avif''"
    by (simp add: path_defs)
  have p: "convert_prepare ref_runtime ''in/rgba.png'' ''AVIF'' 85 False world_no_avif
             = Inr (80, ?img, ?kw)"
    by (simp add: eval_simps)
  have calls: "snd (snd ?run)
                 = [\<lparr>sc_image = ?img, sc_path = ''out/rgba.avif'', sc_format = Some ''AVIF'',
                     sc_kwargs = ?kw\<rparr>]"
    by (simp add: eval_simps)
  note t = missing_avif_encoder_is_reported [OF m l, of "''in/rgba.png''" "''out/rgba.png''" 85 False]
  from t p have r: "fst ?run
     = (False, ''AVIF plugin not installed. Install with: pip install pillow-avif-plugin'', 0)"
    by blast
  from t have w: "fst (snd ?run) = world_no_avif"
    by blast
  have "?run = (fst ?run, fst (snd ?run), snd (snd ?run))"
    by simp
  with r w calls m l show ?thesis
    by (simp only: simp_thms)
qed

text \<open>
  Claim C5 as stated fails in both directions. The plug-in result does not identify
  the missing encoder: with the AVIF encoder registered, a save that fails because the
  output directory does not exist raises \<^verbatim>\<open>FileNotFoundError\<close> naming the derived
  \<^verbatim>\<open>.avif\<close> path, and the handler returns the same plug-in message. And not every call
  without the encoder gets that message: for an input that is no image the result is
  the generic error of the failed open.
\<close>

theorem plugin_message_does_not_identify_missing_encoder:
  "''AVIF'' \<in> set (rw_encoders world_full_codecs)
   \<and> fst (img_save ref_runtime
        \<lparr>sc_image = \<lparr>ri_mode = ''RGB'', ri_size = (1, 1), ri_format = None, ri_exif = [],
                      ri_data = [[7, 7, 7]]\<rparr>,
         sc_path = ''nodir/p.avif'', sc_format = Some ''AVIF'',
         sc_kwargs = \<lparr>kw_quality = Some 85, kw_optimize = None, kw_method = Some 6,
                       kw_exif = None\<rparr>\<rparr>
        world_full_codecs)
      = Some (PyException ''FileNotFoundError''
                (''[Errno 2] No such file or directory: '' @ quoted ''nodir/p.avif''))
   \<and> fst (convert_image ref_runtime ''in/p.png'' ''nodir/p.png'' ''avif'' 85 False
            world_full_codecs)
      = (False, ''AVIF plugin not installed. Install with: pip install pillow-avif-plugin'', 0)
   \<and> ''AVIF'' \<notin> set (rw_encoders world_no_avif)
   \<and> fst (convert_image ref_runtime ''in/notes.txt'' ''out/notes.png'' ''avif'' 85 False
            world_no_avif)
      = (False, ''Error: cannot identify image file '' @ quoted ''in/notes.txt'', 0)"
  by (simp add: eval_simps)

subsection \<open>What a failed operation leaves behind\<close>

text \<open>
  Claim C7, as amended. \<open>compress_image\<close> and \<open>convert_image\<close> write through one
  call of \<^verbatim>\<open>img.save\<close> at most and never remove or restore a file. A result returned
  before the encoder is called is a failure and leaves the file system exactly as it
  was: this covers an input that cannot be opened, a size that cannot be read, a failed
  normalisation or metadata read, and an unsupported target format. Once the encoder
  has been called, the file system returned is the one that call left, whether the
  result is a success or a failure: after a failure the output path is free of partial
  files only as far as the library's own \<^verbatim>\<open>save\<close> leaves none.
\<close>

theorem only_the_encoder_writes:
  "(\<forall>r w' calls. compress_image R inp out q rm w = (r, w', calls)
      \<longrightarrow> (calls = [] \<and> w' = w \<and> fst r = False)
          \<or> (\<exists>c. calls = [c] \<and> w' = snd (img_save R c w)))
   \<and> (\<forall>r w' calls. convert_image R inp out tf q rm w = (r, w', calls)
      \<longrightarrow> (calls = [] \<and> w' = w \<and> fst r = False)
          \<or> (\<exists>c. calls = [c] \<and> w' = snd (img_save R c w)))
   \<and> (lower tf \<noteq> ''webp'' \<and> lower tf \<noteq> ''avif''
      \<longrightarrow> snd (convert_image R inp out tf q rm w) = (w, []))"
proof (intro conjI allI impI)
  fix r w' calls
  assume run: "compress_image R inp out q rm w = (r, w', calls)"
  show "(calls = [] \<and> w' = w \<and> fst r = False)
          \<or> (\<exists>c. calls = [c] \<and> w' = snd (img_save R c w))"
  proof (cases calls)
    case Nil
    with run show ?thesis
      using compress_image_no_call [of R inp out q rm w r w'] by simp
  next
    case (Cons c cs)
    then have "c \<in> set calls" by simp
    from compress_image_call [OF run this] show ?thesis by blast
  qed
next
  fix r w' calls
  assume run: "convert_image R inp out tf q rm w = (r, w', calls)"
  show "(calls = [] \<and> w' = w \<and> fst r = False)
          \<or> (\<exists>c. calls = [c] \<and> w' = snd (img_save R c w))"
  proof (cases calls)
    case Nil
    with run show ?thesis
      using convert_image_no_call [of R inp out tf q rm w r w'] by simp
  next
    case (Cons c cs)
    then have "c \<in> set calls" by simp
    from convert_image_call [OF run this] show ?thesis by blast
  qed
next
  assume "lower tf \<noteq> ''webp'' \<and> lower tf \<noteq> ''avif''"
  then show "snd (convert_image R inp out tf q rm w) = (w, [])"
    by (cases "convert_prepare R inp tf q rm w")
       (auto simp: convert_image_def Let_def)
qed

theorem only_the_encoder_writes_witness:
  "snd (compress_image ref_runtime ''in/notes.txt'' ''out/notes.txt'' 85 False world_full_codecs)
     = (world_full_codecs, [])
   \<and> lower ''gif'' \<noteq> ''webp'' \<and> lower ''gif'' \<noteq> ''avif''
   \<and> snd (convert_image ref_runtime ''in/grey.jpg'' ''out/grey.jpg'' ''gif'' 85 False
            world_full_codecs) = (world_full_codecs, [])"
proof -
  let ?run = "compress_image ref_runtime ''in/notes.txt'' ''out/notes.txt'' 85 False
                world_full_codecs"
  note t = only_the_encoder_writes
             [of ref_runtime "''in/notes.txt''" "''out/notes.txt''" 85 False world_full_codecs]
  have calls: "snd (snd ?run) = []"
    by (simp add: eval_simps)
  have run: "?run = (fst ?run, fst (snd ?run), snd (snd ?run))"
    by simp
  have "(snd (snd ?run) = [] \<and> fst (snd ?run) = world_full_codecs \<and> fst (fst ?run) = False)
          \<or> (\<exists>c. snd (snd ?run) = [c]
                \<and> fst (snd ?run) = snd (img_save ref_runtime c world_full_codecs))"
    using t [THEN conjunct1, rule_format, OF run] .
  with calls have w: "fst (snd ?run) = world_full_codecs"
    by simp
  have a: "snd ?run = (world_full_codecs, [])"
    using calls w by (simp add: prod_eq_iff)
  have l: "lower ''gif'' \<noteq> ''webp'' \<and> lower ''gif'' \<noteq> ''avif''"
    by (simp add: path_defs)
  have "snd (convert_image ref_runtime ''in/grey.jpg'' ''out/grey.jpg'' ''gif'' 85 False
               world_full_codecs) = (world_full_codecs, [])"
    using only_the_encoder_writes
            [of ref_runtime "''in/grey.jpg''" "''out/grey.jpg''" 85 False world_full_codecs
                "''gif''", THEN conjunct2, THEN conjunct2, rule_format, OF l] .
  with a l show ?thesis by simp
qed

text \<open>
  Claim C7 as stated fails where the library's \<^verbatim>\<open>save\<close> fails after it has opened the
  output file. On a full disk, compressing onto an output path that already holds a
  file of 300 bytes returns a failure result, and the output path then holds a file of
  no bytes, which is no image any more: the truncated file is left in place.
\<close>

theorem failed_compress_leaves_truncated_file:
  "fst (fst (compress_image ref_runtime ''in/grey.jpg'' ''out/grey.jpg'' 85 False
               world_disk_full)) = False
   \<and> getsize ref_runtime world_disk_full ''out/grey.jpg'' = Inr 300
   \<and> path_exists ref_runtime
        (fst (snd (compress_image ref_runtime ''in/grey.jpg'' ''out/grey.jpg'' 85 False
                     world_disk_full))) ''out/grey.jpg'' = True
   \<and> getsize ref_runtime
        (fst (snd (compress_image ref_runtime ''in/grey.jpg'' ''out/grey.jpg'' 85 False
                     world_disk_full))) ''out/grey.jpg'' = Inr 0"
  by (simp add: eval_simps)

subsection \<open>Stripping metadata\<close>






end
